theory Spec2Isabelle
  imports Main "HOL-Library.Word"
begin

section \<open>Strings, numbers and the protocol log\<close>

text \<open>
  A JavaScript string is a sequence of 16-bit code units; \<open>length\<close>, \<open>slice\<close> and the
  regular expressions of the sources all count code units. \<open>js\<close> embeds an ASCII literal.
\<close>

type_synonym jsstring = "16 word list"

definition js :: "string \<Rightarrow> jsstring" where
  "js s = map of_char s"

text \<open>\<open>String(n)\<close> for an integer \<open>n\<close>: its decimal digits, with a sign when negative.\<close>

fun decimal :: "nat \<Rightarrow> jsstring" where
  "decimal n = (if n < 10 then [48 + of_nat n] else decimal (n div 10) @ [48 + of_nat (n mod 10)])"

definition String_of :: "int \<Rightarrow> jsstring" where
  "String_of i = (if i < 0 then js ''-'' @ decimal (nat (- i)) else decimal (nat i))"

text \<open>
  A line of the protocol log: its level, the logger, and the message, kept as the template of
  the source together with the values interpolated into it.
\<close>

datatype logLevel = LogDebug | LogInfo | LogWarning | LogAlert

datatype logger = watcher | hooks | notifier

datatype UrgencyLevel = urgent | high | normal | low

datatype logMessage =
    IdleStarted jsstring jsstring int
  | IdleConnectFailed jsstring jsstring jsstring
  | Reconnecting jsstring jsstring int
  | NewEmailsIn nat jsstring jsstring
  | FetchNewFailed jsstring
  | HooksActive jsstring bool
  | NewEmailLine jsstring jsstring jsstring jsstring
  | RateLimitFallback
  | SamplingFailed jsstring
  | LabelFailed jsstring jsstring
  | FlagFailed jsstring
  | TriageLine UrgencyLevel jsstring jsstring bool "jsstring list"
  | ActionLine jsstring
  | AlertLine UrgencyLevel "jsstring option" jsstring jsstring "jsstring list option" "jsstring option"
  | WebhookReturned int
  | WebhookFailed

type_synonym logLine = "logLevel \<times> logger \<times> logMessage"

text \<open>
  Modelled from the spec: \<open>mcpLog(level, logger, message)\<close> is defined in \<open>logging.ts\<close>, which
  is not among the sources; it writes to what the spec calls the protocol log. A call adds
  one line to that log and does not fail.
\<close>

definition mcpLog :: "logLevel \<Rightarrow> logger \<Rightarrow> logMessage \<Rightarrow> logLine list \<Rightarrow> logLine list" where
  "mcpLog lv lg m lines = lines @ [(lv, lg, m)]"

section \<open>Message summaries and events (\<open>event-bus.ts\<close>)\<close>

text \<open>
  \<open>EmailMeta\<close> is declared in \<open>types/index.ts\<close>, which is not among the sources: the record
  has the fields \<open>buildEmailMeta\<close> fills (\<open>from\<close> and \<open>to\<close> are \<open>sender\<close> and \<open>recipients\<close> here).
\<close>

record Address =
  addr_name :: "jsstring option"
  address :: jsstring

record EmailMeta =
  id :: jsstring
  subject :: jsstring
  sender :: Address
  recipients :: "Address list"
  date :: jsstring
  seen :: bool
  flagged :: bool
  answered :: bool
  hasAttachments :: bool
  meta_labels :: "jsstring list"

record NewEmailEvent =
  ev_account :: jsstring
  ev_mailbox :: jsstring
  emails :: "EmailMeta list"

record ExpungeEvent =
  ex_account :: jsstring
  ex_mailbox :: jsstring
  ex_count :: int

datatype eventName = email_new | email_expunge

datatype busEvent = NewEmail NewEmailEvent | Expunge ExpungeEvent

text \<open>
  \<open>class EmailEventBus extends EventEmitter\<close> adds nothing to Node's \<open>EventEmitter\<close>, so the
  bus behaves as \<open>node:events\<close> documents: per event name a list of listeners in
  registration order; \<open>emit\<close> calls them synchronously, one after the other, with no
  \<open>try\<close> around a call, so the first listener that throws ends the emit and its exception
  leaves \<open>emit\<close>. A listener acts on the state \<open>'s\<close> of the rest of the process and either
  returns or throws; what it did before throwing stays done.
\<close>

datatype 's completion = Returns 's | Throws jsstring 's

type_synonym 's listener = "busEvent \<Rightarrow> 's \<Rightarrow> 's completion"

record 's EmailEventBus =
  listeners :: "eventName \<Rightarrow> 's listener list"

definition newEventBus :: "'s EmailEventBus" where
  "newEventBus = \<lparr>listeners = (\<lambda>_. [])\<rparr>"

definition on :: "eventName \<Rightarrow> 's listener \<Rightarrow> 's EmailEventBus \<Rightarrow> 's EmailEventBus" where
  "on n l bus = bus\<lparr>listeners := (listeners bus)(n := listeners bus n @ [l])\<rparr>"

definition removeAllListeners :: "eventName \<Rightarrow> 's EmailEventBus \<Rightarrow> 's EmailEventBus" where
  "removeAllListeners n bus = bus\<lparr>listeners := (listeners bus)(n := [])\<rparr>"

fun deliver :: "'s listener list \<Rightarrow> busEvent \<Rightarrow> 's \<Rightarrow> 's completion" where
  "deliver [] ev s = Returns s"
| "deliver (l # ls) ev s =
     (case l ev s of Returns s' \<Rightarrow> deliver ls ev s' | Throws e s' \<Rightarrow> Throws e s')"

definition emit :: "'s EmailEventBus \<Rightarrow> eventName \<Rightarrow> busEvent \<Rightarrow> 's \<Rightarrow> 's completion" where
  "emit bus n ev s = deliver (listeners bus n) ev s"

section \<open>The IDLE watcher (\<open>watcher.service.ts\<close>)\<close>

text \<open>
  \<open>AccountConfig\<close> is declared in \<open>types/index.ts\<close> too; of its fields the watcher keeps
  state by \<open>name\<close> only, the others are handed to the IMAP client when it connects.
\<close>

record AccountConfig =
  name :: jsstring

datatype ImapFlow = ImapFlow nat

datatype MailboxLock = MailboxLock nat

text \<open>The handle of a reconnect timer: its delay and the \<open>backoffMs\<close> its callback captured.\<close>

datatype Timeout = Timeout (delay: int) (captured: int)

record IdleState =
  client :: "ImapFlow option"
  account :: AccountConfig
  folder :: jsstring
  lastSeenUid :: int
  lock :: "MailboxLock option"
  reconnectTimer :: "Timeout option"
  backoffMs :: int
  stopped :: bool

record WatcherService =
  idleStates :: "jsstring \<rightharpoonup> IdleState"
  log :: "logLine list"

definition SYSTEM_FLAGS :: "jsstring list" where
  "SYSTEM_FLAGS = map (\<lambda>s. 0x5C # js s)
     [''Seen'', ''Answered'', ''Flagged'', ''Deleted'', ''Draft'', ''Recent'', ''*'']"

definition MAX_BACKOFF_MS :: int where
  "MAX_BACKOFF_MS = 60000"

definition INITIAL_BACKOFF_MS :: int where
  "INITIAL_BACKOFF_MS = 1000"

definition watcherLog :: "logLevel \<Rightarrow> logMessage \<Rightarrow> WatcherService \<Rightarrow> WatcherService" where
  "watcherLog lv m ws = ws\<lparr>log := mcpLog lv watcher m (log ws)\<rparr>"

definition stateKey :: "IdleState \<Rightarrow> jsstring" where
  "stateKey st = name (account st) @ js '':'' @ folder st"

text \<open>\<open>updateState(key, updates)\<close>: \<open>Object.assign\<close> on the target when it is in the table.\<close>

definition updateState :: "jsstring \<Rightarrow> (IdleState \<Rightarrow> IdleState) \<Rightarrow> WatcherService \<Rightarrow> WatcherService" where
  "updateState key updates ws =
     (case idleStates ws key of
        None \<Rightarrow> ws
      | Some st \<Rightarrow> ws\<lparr>idleStates := (idleStates ws)(key \<mapsto> updates st)\<rparr>)"

definition scheduleReconnect :: "jsstring \<Rightarrow> WatcherService \<Rightarrow> WatcherService" where
  "scheduleReconnect key ws =
     (case idleStates ws key of
        None \<Rightarrow> ws
      | Some st \<Rightarrow>
          if stopped st then ws
          else
            let b = backoffMs st;
                ws1 = watcherLog LogInfo (Reconnecting (name (account st)) (folder st) b) ws
            in updateState key (\<lambda>s. s\<lparr>reconnectTimer := Some (Timeout b b)\<rparr>) ws1)"

text \<open>
  What \<open>client.connect()\<close> and \<open>getMailboxLock\<close> did: both succeeded, giving the client, the
  lock and \<open>client.mailbox\<close> (\<open>false\<close> or an object whose \<open>uidNext\<close> may be missing), or one of
  them threw.
\<close>

record MailboxObject =
  uidNext :: "int option"

datatype connectResult =
    Connected ImapFlow MailboxLock "MailboxObject option"
  | ConnectError jsstring

definition resolveUidNext :: "MailboxObject option \<Rightarrow> int" where
  "resolveUidNext mailbox =
     (case mailbox of
        None \<Rightarrow> 1
      | Some mb \<Rightarrow> (case uidNext mb of None \<Rightarrow> 1 | Some n \<Rightarrow> n))"

definition connectIdle :: "jsstring \<Rightarrow> connectResult \<Rightarrow> WatcherService \<Rightarrow> WatcherService" where
  "connectIdle key res ws =
     (case idleStates ws key of
        None \<Rightarrow> ws
      | Some st \<Rightarrow>
          if stopped st then ws
          else
            (case res of
               Connected c l mailbox \<Rightarrow>
                 let n = resolveUidNext mailbox;
                     ws1 = updateState key
                       (\<lambda>s. s\<lparr>client := Some c, lock := Some l, lastSeenUid := n - 1,
                              backoffMs := INITIAL_BACKOFF_MS\<rparr>) ws
                 in watcherLog LogInfo (IdleStarted (name (account st)) (folder st) (n - 1)) ws1
             | ConnectError errMsg \<Rightarrow>
                 scheduleReconnect key
                   (watcherLog LogWarning
                      (IdleConnectFailed (name (account st)) (folder st) errMsg) ws)))"

definition startIdle :: "AccountConfig \<Rightarrow> jsstring \<Rightarrow> connectResult \<Rightarrow> WatcherService \<Rightarrow> WatcherService" where
  "startIdle acc fld res ws =
     (let key = name acc @ js '':'' @ fld
      in connectIdle key res
           (ws\<lparr>idleStates := (idleStates ws)(key \<mapsto>
              \<lparr>client = None, account = acc, folder = fld, lastSeenUid = 0, lock = None,
               reconnectTimer = None, backoffMs = INITIAL_BACKOFF_MS, stopped = False\<rparr>)\<rparr>))"

text \<open>The callback of the reconnect timer set by \<open>scheduleReconnect\<close>.\<close>

definition reconnectTimerFired :: "jsstring \<Rightarrow> Timeout \<Rightarrow> connectResult \<Rightarrow> WatcherService \<Rightarrow> WatcherService" where
  "reconnectTimerFired key t res ws =
     connectIdle key res
       (updateState key (\<lambda>s. s\<lparr>backoffMs := min (captured t * 2) MAX_BACKOFF_MS\<rparr>) ws)"

text \<open>The \<open>close\<close> listener that \<open>connectIdle\<close> puts on the client.\<close>

definition onClose :: "jsstring \<Rightarrow> WatcherService \<Rightarrow> WatcherService" where
  "onClose key ws =
     (let ws1 = updateState key (\<lambda>s. s\<lparr>lock := None, client := None\<rparr>) ws
      in case idleStates ws1 key of
           None \<Rightarrow> ws1
         | Some current \<Rightarrow> if \<not> stopped current then scheduleReconnect key ws1 else ws1)"

text \<open>
  A message as \<open>client.fetch\<close> yields it. \<open>bodyStructure\<close> is \<open>unknown\<close> in the source: absent
  (or not an object), or a node with an optional disposition and optional child nodes.
\<close>

datatype BodyStructure = BodyStructure (disposition: "jsstring option") (childNodes: "BodyStructure list option")

text \<open>
  A \<open>Date\<close> of the envelope: a valid one, given by the string \<open>toISOString\<close> returns for it,
  or an invalid one (a date header that could not be parsed), on which \<open>toISOString\<close> throws a
  \<open>RangeError\<close>.
\<close>

datatype JsDate = ValidDate jsstring | InvalidDate

record EnvelopeAddress =
  ea_name :: "jsstring option"
  ea_address :: "jsstring option"

record Envelope =
  env_subject :: "jsstring option"
  env_from :: "EnvelopeAddress list option"
  env_to :: "EnvelopeAddress list option"
  env_date :: "JsDate option"

record FetchMessage =
  uid :: int
  flags :: "jsstring list option"
  envelope :: "Envelope option"
  bodyStructure :: "BodyStructure option"

fun hasAttachmentsNode :: "BodyStructure \<Rightarrow> bool" where
  "hasAttachmentsNode (BodyStructure d cs) =
     (if d = Some (js ''attachment'') then True
      else case cs of None \<Rightarrow> False | Some children \<Rightarrow> list_ex hasAttachmentsNode children)"

definition hasAttachmentsOf :: "BodyStructure option \<Rightarrow> bool" where
  "hasAttachmentsOf bs = (case bs of None \<Rightarrow> False | Some b \<Rightarrow> hasAttachmentsNode b)"

text \<open>
  \<open>now\<close> is \<open>new Date().toISOString()\<close>, used when the envelope has no date. The fields of
  the summary are computed in the order of the source; the only one that can throw is the
  date, \<open>msg.envelope?.date?.toISOString()\<close>, and nothing computed before it has an effect,
  so the throw is tested first. \<open>Inl\<close> carries the message of the exception.
\<close>

definition buildEmailMeta :: "jsstring \<Rightarrow> FetchMessage \<Rightarrow> jsstring + EmailMeta" where
  "buildEmailMeta now msg =
     (case Option.bind (envelope msg) env_date of
        Some InvalidDate \<Rightarrow> Inl (js ''Invalid time value'')
      | dt \<Rightarrow>
          (let fl = (case flags msg of None \<Rightarrow> [] | Some f \<Rightarrow> f);
               lbls = filter (\<lambda>f. f \<notin> set SYSTEM_FLAGS) fl;
               frm = (case envelope msg of
                        None \<Rightarrow> None
                      | Some e \<Rightarrow> (case env_from e of None \<Rightarrow> None | Some [] \<Rightarrow> None | Some (a # _) \<Rightarrow> Some a));
               tos = (case envelope msg of
                        None \<Rightarrow> []
                      | Some e \<Rightarrow> (case env_to e of None \<Rightarrow> [] | Some l \<Rightarrow> l))
           in Inr \<lparr>id = String_of (uid msg),
               subject = (case Option.bind (envelope msg) env_subject of
                            None \<Rightarrow> js ''(no subject)'' | Some sj \<Rightarrow> sj),
               sender = \<lparr>addr_name = Option.bind frm ea_name,
                          address = (case Option.bind frm ea_address of None \<Rightarrow> [] | Some a \<Rightarrow> a)\<rparr>,
               recipients = map (\<lambda>a. \<lparr>addr_name = ea_name a,
                          address = (case ea_address a of None \<Rightarrow> [] | Some x \<Rightarrow> x)\<rparr>) tos,
               date = (case dt of Some (ValidDate d) \<Rightarrow> d | _ \<Rightarrow> now),
               seen = (0x5C # js ''Seen'') \<in> set fl,
               flagged = (0x5C # js ''Flagged'') \<in> set fl,
               answered = (0x5C # js ''Answered'') \<in> set fl,
               hasAttachments = hasAttachmentsOf (bodyStructure msg),
               meta_labels = lbls\<rparr>))"

text \<open>
  What the \<open>for await\<close> over \<open>client.fetch\<close> did: it yielded all its messages, or it yielded
  some and then threw.
\<close>

datatype fetchResult = FetchDone "FetchMessage list" | FetchThrew "FetchMessage list" jsstring

text \<open>
  The body of the loop for one message, on the local variables \<open>emails\<close> and \<open>maxUid\<close>;
  \<open>live\<close> is \<open>state.lastSeenUid\<close> as it is when the message is handled. \<open>Inl\<close> is an exception
  thrown in the body.
\<close>

definition loopBody ::
  "jsstring \<Rightarrow> int \<Rightarrow> FetchMessage \<Rightarrow> EmailMeta list \<times> int \<Rightarrow> jsstring + EmailMeta list \<times> int" where
  "loopBody now live msg acc =
     (case acc of (ems, maxUid) \<Rightarrow>
        if uid msg > live
        then (case buildEmailMeta now msg of
                Inl errMsg \<Rightarrow> Inl errMsg
              | Inr em \<Rightarrow> Inr (ems @ [em], max maxUid (uid msg)))
        else Inr (ems, maxUid))"

text \<open>The loop over the messages yielded, when nothing else runs in between.\<close>

fun fetchLoop ::
  "int \<Rightarrow> jsstring \<Rightarrow> FetchMessage list \<Rightarrow> EmailMeta list \<times> int \<Rightarrow> jsstring + EmailMeta list \<times> int" where
  "fetchLoop lastSeen now [] acc = Inr acc"
| "fetchLoop lastSeen now (msg # msgs) acc =
     (case loopBody now lastSeen msg acc of
        Inl errMsg \<Rightarrow> Inl errMsg
      | Inr acc' \<Rightarrow> fetchLoop lastSeen now msgs acc')"

text \<open>
  What follows the loop inside the \<open>try\<close>: the update of \<open>lastSeenUid\<close>, the emit and its log
  line; an exception of the emit is caught by the \<open>catch\<close> of the handler.
\<close>

definition afterLoop ::
  "'s EmailEventBus \<Rightarrow> jsstring \<Rightarrow> EmailMeta list \<times> int \<Rightarrow> WatcherService \<times> 's \<Rightarrow> WatcherService \<times> 's" where
  "afterLoop bus key acc w =
     (case w of (ws, s) \<Rightarrow>
      (case acc of (ems, maxUid) \<Rightarrow>
       (case idleStates ws key of
          None \<Rightarrow> (ws, s)
        | Some st \<Rightarrow>
            let ws1 = (if maxUid > lastSeenUid st
                       then updateState key (\<lambda>x. x\<lparr>lastSeenUid := maxUid\<rparr>) ws
                       else ws)
            in if length ems > 0
               then (case emit bus email_new
                            (NewEmail \<lparr>ev_account = name (account st),
                                       ev_mailbox = folder st, emails = ems\<rparr>) s of
                       Returns s' \<Rightarrow>
                         (watcherLog LogInfo
                            (NewEmailsIn (length ems) (name (account st)) (folder st)) ws1, s')
                     | Throws errMsg s' \<Rightarrow>
                         (watcherLog LogWarning (FetchNewFailed errMsg) ws1, s'))
               else (ws1, s))))"

text \<open>
  \<open>handleNewEmails\<close> run from its start to its end with nothing in between. Whatever is
  thrown inside the \<open>try\<close>, by the fetch or by the building of a summary, is logged by the
  \<open>catch\<close>, and the update of \<open>lastSeenUid\<close> is then not reached.
\<close>

definition handleNewEmails ::
  "'s EmailEventBus \<Rightarrow> jsstring \<Rightarrow> jsstring \<Rightarrow> fetchResult \<Rightarrow> WatcherService \<times> 's \<Rightarrow> WatcherService \<times> 's" where
  "handleNewEmails bus key now res w =
     (case w of (ws, s) \<Rightarrow>
      (case idleStates ws key of
         None \<Rightarrow> (ws, s)
       | Some st \<Rightarrow>
           (case client st of
              None \<Rightarrow> (ws, s)
            | Some c \<Rightarrow>
                (case res of
                   FetchThrew yielded errMsg \<Rightarrow>
                     (case fetchLoop (lastSeenUid st) now yielded ([], lastSeenUid st) of
                        Inl errMsg' \<Rightarrow> (watcherLog LogWarning (FetchNewFailed errMsg') ws, s)
                      | Inr acc \<Rightarrow> (watcherLog LogWarning (FetchNewFailed errMsg) ws, s))
                 | FetchDone msgs \<Rightarrow>
                     (case fetchLoop (lastSeenUid st) now msgs ([], lastSeenUid st) of
                        Inl errMsg \<Rightarrow> (watcherLog LogWarning (FetchNewFailed errMsg) ws, s)
                      | Inr acc \<Rightarrow> afterLoop bus key acc (ws, s))))))"

text \<open>The \<open>exists\<close> listener that \<open>connectIdle\<close> puts on the client.\<close>

definition onExists ::
  "'s EmailEventBus \<Rightarrow> jsstring \<Rightarrow> jsstring \<Rightarrow> int \<Rightarrow> int \<Rightarrow> fetchResult \<Rightarrow> WatcherService \<times> 's \<Rightarrow> WatcherService \<times> 's" where
  "onExists bus key now count prevCount res w =
     (if count > prevCount then handleNewEmails bus key now res w else w)"


text \<open>
  A run of consecutive connection failures: the pending reconnect timer fires, the connect
  attempt fails with the next error, which schedules the next timer. The result lists the
  delay waited before each failing attempt, and gives the watcher after the run.
\<close>

fun failureRun :: "jsstring \<Rightarrow> jsstring list \<Rightarrow> WatcherService \<Rightarrow> int list \<times> WatcherService" where
  "failureRun key [] ws = ([], ws)"
| "failureRun key (e # es) ws =
     (case idleStates ws key of
        None \<Rightarrow> ([], ws)
      | Some st \<Rightarrow>
          (case reconnectTimer st of
             None \<Rightarrow> ([], ws)
           | Some t \<Rightarrow>
               (case failureRun key es (reconnectTimerFired key t (ConnectError e) ws) of
                  (ds, ws') \<Rightarrow> (delay t # ds, ws'))))"

text \<open>The exponential sequence from \<open>b\<close>: doubled at each step and capped.\<close>

definition backoffSeq :: "int \<Rightarrow> nat \<Rightarrow> int list" where
  "backoffSeq b n = map (\<lambda>i. min (b * 2 ^ i) MAX_BACKOFF_MS) [0..<n]"








text \<open>A watcher as its constructor leaves it, and a target used in the examples.\<close>

definition newWatcherService :: WatcherService where
  "newWatcherService = \<lparr>idleStates = Map.empty, log = []\<rparr>"

definition exampleAccount :: AccountConfig where
  "exampleAccount = \<lparr>name = js ''work''\<rparr>"

definition exampleKey :: jsstring where
  "exampleKey = js ''work:INBOX''"

definition exampleMessage :: "int \<Rightarrow> FetchMessage" where
  "exampleMessage u = \<lparr>uid = u, flags = None, envelope = None, bodyStructure = None\<rparr>"


definition exampleState :: IdleState where
  "exampleState = \<lparr>client = None, account = exampleAccount, folder = js ''INBOX'', lastSeenUid = 0,
     lock = None, reconnectTimer = Some (Timeout 1000 1000), backoffMs = 1000, stopped = False\<rparr>"


text \<open>
  A target connected when the store's next uid was 42, closed, and connected again by the
  reconnect timer to a client whose \<open>mailbox\<close> is \<open>false\<close>; and a subscriber that keeps the ids
  of the summaries published.
\<close>

definition exampleClosed :: WatcherService where
  "exampleClosed = onClose exampleKey
     (startIdle exampleAccount (js ''INBOX'')
        (Connected (ImapFlow 1) (MailboxLock 1) (Some \<lparr>uidNext = Some 42\<rparr>)) newWatcherService)"

definition exampleReconnected :: WatcherService where
  "exampleReconnected = reconnectTimerFired exampleKey (Timeout 1000 1000)
     (Connected (ImapFlow 2) (MailboxLock 2) None) exampleClosed"

definition announced :: "jsstring list listener" where
  "announced ev s =
     Returns (s @ (case ev of NewEmail e \<Rightarrow> map id (emails e) | Expunge e \<Rightarrow> []))"

section \<open>The notifier (\<open>event-bus.ts\<close>, \<open>NotifierService\<close>)\<close>

text \<open>
  \<open>AlertsConfig\<close> is declared in \<open>types/index.ts\<close>, which is not among the sources: the
  record has the fields the notifier reads.
\<close>

record AlertsConfig =
  desktop :: bool
  sound :: bool
  urgencyThreshold :: UrgencyLevel
  webhookUrl :: jsstring
  webhookEvents :: "UrgencyLevel list"

record AlertPayload =
  ap_account :: jsstring
  ap_sender :: Address
  ap_subject :: jsstring
  priority :: UrgencyLevel
  ap_labels :: "jsstring list option"
  ruleName :: "jsstring option"

fun URGENCY_ORDER :: "UrgencyLevel \<Rightarrow> nat" where
  "URGENCY_ORDER urgent = 4"
| "URGENCY_ORDER high = 3"
| "URGENCY_ORDER normal = 2"
| "URGENCY_ORDER low = 1"

fun MCP_LOG_LEVEL_MAP :: "UrgencyLevel \<Rightarrow> logLevel" where
  "MCP_LOG_LEVEL_MAP urgent = LogAlert"
| "MCP_LOG_LEVEL_MAP high = LogWarning"
| "MCP_LOG_LEVEL_MAP normal = LogInfo"
| "MCP_LOG_LEVEL_MAP low = LogDebug"

text \<open>
  The three replacements of \<open>sanitizeForShell\<close>, in the order of the source, then the cut
  at 200 code units.
\<close>

definition sanitizeForShell :: "jsstring \<Rightarrow> jsstring" where
  "sanitizeForShell text =
     take 200
       (filter (\<lambda>c. (0x20 \<le> c \<and> c \<le> 0x7E) \<or> 0xA0 \<le> c)
          (map (\<lambda>c. if c = 0x0A \<or> c = 0x0D \<or> c = 0x09 then 0x20 else c)
             (filter (\<lambda>c. c \<noteq> 0x5C \<and> c \<noteq> 0x22 \<and> c \<noteq> 0x27 \<and> c \<noteq> 0x60 \<and> c \<noteq> 0x24) text)))"

datatype Interval = Interval int

record NotifierService =
  config :: AlertsConfig
  desktopCount :: nat
  desktopResetTimer :: "Interval option"

definition MAX_DESKTOP_PER_MIN :: nat where
  "MAX_DESKTOP_PER_MIN = 5"

definition newNotifierService :: "AlertsConfig \<Rightarrow> NotifierService" where
  "newNotifierService cfg = \<lparr>config = cfg, desktopCount = 0, desktopResetTimer = Some (Interval 60000)\<rparr>"

text \<open>The callback of the 60-second interval set by the constructor.\<close>

definition desktopResetFired :: "NotifierService \<Rightarrow> NotifierService" where
  "desktopResetFired ns = ns\<lparr>desktopCount := 0\<rparr>"

definition notifierStop :: "NotifierService \<Rightarrow> NotifierService" where
  "notifierStop ns = (case desktopResetTimer ns of None \<Rightarrow> ns | Some t \<Rightarrow> ns\<lparr>desktopResetTimer := None\<rparr>)"

text \<open>
  What an alert meets outside the service: \<open>process.platform\<close>, whether the notification
  command fails, and what the webhook request does. What the service does to the outside is
  listed as effects: a log line, a notification command run for a platform with the title,
  the body and the sound flag (the text of the shell command itself is not modelled), a
  webhook request.
\<close>

datatype platform = darwin | linux | win32 | otherPlatform

datatype webhookOutcome = WebhookOk | WebhookNotOk int | WebhookThrew

record alertEnv =
  env_platform :: platform
  execFails :: bool
  webhookDoes :: webhookOutcome

datatype notifierEffect =
    NLog logLine
  | Exec platform jsstring jsstring bool
  | WebhookPost AlertPayload

definition senderDisplayOf :: "Address \<Rightarrow> jsstring" where
  "senderDisplayOf a = (case addr_name a of None \<Rightarrow> address a | Some n \<Rightarrow> n)"

definition sendDesktopNotification ::
  "alertEnv \<Rightarrow> AlertPayload \<Rightarrow> NotifierService \<Rightarrow> notifierEffect list \<times> NotifierService" where
  "sendDesktopNotification env payload ns =
     (if desktopCount ns \<ge> MAX_DESKTOP_PER_MIN then ([], ns)
      else
        let ns1 = ns\<lparr>desktopCount := desktopCount ns + 1\<rparr>;
            title = sanitizeForShell
              ([0xD83D, 0xDCE7] @ js '' Email MCP '' @ [0x2014] @
               (if priority payload = urgent then js '' Urgent'' else js '' Important''));
            senderDisplay = sanitizeForShell (senderDisplayOf (ap_sender payload));
            subj = sanitizeForShell (ap_subject payload);
            body = js ''From: '' @ senderDisplay @ [0x0A] @ subj;
            playSound = (sound (config ns) \<and> priority payload = urgent)
        in (case env_platform env of
              darwin \<Rightarrow> ([Exec darwin title body playSound], ns1)
            | linux \<Rightarrow> ([Exec linux title body playSound], ns1)
            | win32 \<Rightarrow> ([Exec win32 title body False], ns1)
            | otherPlatform \<Rightarrow> ([], ns1)))"

definition sendWebhook :: "alertEnv \<Rightarrow> AlertPayload \<Rightarrow> NotifierService \<Rightarrow> notifierEffect list" where
  "sendWebhook env payload ns =
     (if webhookUrl (config ns) = [] then []
      else WebhookPost payload #
        (case webhookDoes env of
           WebhookOk \<Rightarrow> []
         | WebhookNotOk status \<Rightarrow> [NLog (LogWarning, notifier, WebhookReturned status)]
         | WebhookThrew \<Rightarrow> [NLog (LogDebug, notifier, WebhookFailed)]))"

definition alert ::
  "alertEnv \<Rightarrow> AlertPayload \<Rightarrow> bool \<Rightarrow> NotifierService \<Rightarrow> notifierEffect list \<times> NotifierService" where
  "alert env payload forceDesktop ns =
     (let meetsThreshold =
            (URGENCY_ORDER (priority payload) \<ge> URGENCY_ORDER (urgencyThreshold (config ns)));
          logLine = NLog (MCP_LOG_LEVEL_MAP (priority payload), notifier,
            AlertLine (priority payload) (addr_name (ap_sender payload)) (address (ap_sender payload))
              (ap_subject payload) (ap_labels payload) (ruleName payload));
          (deskEffects, ns1) =
            (if desktop (config ns) \<and> (meetsThreshold \<or> forceDesktop)
             then sendDesktopNotification env payload ns
             else ([], ns));
          hookEffects =
            (if webhookUrl (config ns1) \<noteq> [] \<and> priority payload \<in> set (webhookEvents (config ns1))
             then sendWebhook env payload ns1
             else [])
      in (logLine # deskEffects @ hookEffects, ns1))"

text \<open>
  A history of one notifier: alerts and firings of the reset interval. \<open>runNotifier\<close> counts
  the notification commands run since the last firing.
\<close>

datatype notifierEvent = AlertCall alertEnv AlertPayload bool | ResetInterval

fun isExec :: "notifierEffect \<Rightarrow> bool" where
  "isExec (Exec p t b s) = True"
| "isExec (NLog l) = False"
| "isExec (WebhookPost p) = False"

fun runNotifier :: "notifierEvent list \<Rightarrow> nat \<times> NotifierService \<Rightarrow> nat \<times> NotifierService" where
  "runNotifier [] w = w"
| "runNotifier (AlertCall env payload force # es) (n, ns) =
     (case alert env payload force ns of
        (eff, ns') \<Rightarrow> runNotifier es (n + length (filter isExec eff), ns'))"
| "runNotifier (ResetInterval # es) (n, ns) = runNotifier es (0, desktopResetFired ns)"

fun onSupportedPlatform :: "notifierEvent \<Rightarrow> bool" where
  "onSupportedPlatform (AlertCall env payload force) = (env_platform env \<noteq> otherPlatform)"
| "onSupportedPlatform ResetInterval = True"

definition exampleAlerts :: AlertsConfig where
  "exampleAlerts = \<lparr>desktop = True, sound = False, urgencyThreshold = high, webhookUrl = [],
     webhookEvents = []\<rparr>"

definition examplePayload :: "UrgencyLevel \<Rightarrow> AlertPayload" where
  "examplePayload p = \<lparr>ap_account = js ''work'',
     ap_sender = \<lparr>addr_name = None, address = js ''alice@example.org''\<rparr>,
     ap_subject = js ''Quarterly report'', priority = p, ap_labels = None, ruleName = None\<rparr>"

definition exampleEnv :: alertEnv where
  "exampleEnv = \<lparr>env_platform = linux, execFails = False, webhookDoes = WebhookOk\<rparr>"

section \<open>Values and \<open>JSON.parse\<close>\<close>

text \<open>
  The values \<open>sanitizeTriageResult\<close> can meet: what \<open>JSON.parse\<close> returns, and \<open>undefined\<close>
  for a property that is absent. A number is kept as its literal; nothing here reads it.
\<close>

datatype jsvalue =
    JUndefined
  | JNull
  | JBool bool
  | JNumber jsstring
  | JString jsstring
  | JArray "jsvalue list"
  | JObject "(jsstring \<times> jsvalue) list"

text \<open>
  \<open>obj.key\<close> for the keys the source reads (\<open>priority\<close>, \<open>labels\<close>, \<open>flag\<close>, \<open>action\<close>): the
  own property of an object, \<open>undefined\<close> when it has none; arrays and the prototypes have no
  property of these names.
\<close>

fun getProp :: "jsvalue \<Rightarrow> jsstring \<Rightarrow> jsvalue" where
  "getProp (JObject ms) k = (case map_of ms k of None \<Rightarrow> JUndefined | Some v \<Rightarrow> v)"
| "getProp v k = JUndefined"

text \<open>Defining a property: a repeated key keeps its place and takes the later value.\<close>

fun setProp :: "jsstring \<Rightarrow> jsvalue \<Rightarrow> (jsstring \<times> jsvalue) list \<Rightarrow> (jsstring \<times> jsvalue) list" where
  "setProp k v [] = [(k, v)]"
| "setProp k v (m # ms) = (if fst m = k then (k, v) # ms else m # setProp k v ms)"

text \<open>
  \<open>JSON.parse\<close> is the platform's; it is modelled after the JSON grammar: a lexer producing
  tokens, and a parser that keeps a stack of the arrays and objects still open. \<open>None\<close> is a
  \<open>SyntaxError\<close>.
\<close>

datatype token =
    TLBrace | TRBrace | TLBracket | TRBracket | TColon | TComma
  | TString jsstring | TNumber jsstring | TTrue | TFalse | TNull

definition isJsonSpace :: "16 word \<Rightarrow> bool" where
  "isJsonSpace c = (c = 0x20 \<or> c = 0x09 \<or> c = 0x0A \<or> c = 0x0D)"

definition isDigit :: "16 word \<Rightarrow> bool" where
  "isDigit c = (0x30 \<le> c \<and> c \<le> 0x39)"

definition hexVal :: "16 word \<Rightarrow> 16 word option" where
  "hexVal c =
     (if 0x30 \<le> c \<and> c \<le> 0x39 then Some (c - 0x30)
      else if 0x61 \<le> c \<and> c \<le> 0x66 then Some (c - 0x61 + 10)
      else if 0x41 \<le> c \<and> c \<le> 0x46 then Some (c - 0x41 + 10)
      else None)"

definition unescape :: "16 word \<Rightarrow> 16 word option" where
  "unescape e =
     (if e = 0x22 then Some 0x22
      else if e = 0x5C then Some 0x5C
      else if e = 0x2F then Some 0x2F
      else if e = 0x62 then Some 0x08
      else if e = 0x66 then Some 0x0C
      else if e = 0x6E then Some 0x0A
      else if e = 0x72 then Some 0x0D
      else if e = 0x74 then Some 0x09
      else None)"

definition consFst :: "'a \<Rightarrow> ('a list \<times> 'b) option \<Rightarrow> ('a list \<times> 'b) option" where
  "consFst c r = (case r of None \<Rightarrow> None | Some (s, rest) \<Rightarrow> Some (c # s, rest))"

text \<open>The characters of a string after its opening quote, and what follows the closing one.\<close>

fun lexString :: "jsstring \<Rightarrow> (jsstring \<times> jsstring) option" where
  "lexString [] = None"
| "lexString (c # cs) =
     (if c = 0x22 then Some ([], cs)
      else if c = 0x5C then
        (case cs of
           [] \<Rightarrow> None
         | e # r \<Rightarrow>
             if e = 0x75 then
               (case r of
                  h1 # h2 # h3 # h4 # r' \<Rightarrow>
                    (case (hexVal h1, hexVal h2, hexVal h3, hexVal h4) of
                       (Some a, Some b, Some c', Some d) \<Rightarrow>
                         consFst (a * 4096 + b * 256 + c' * 16 + d) (lexString r')
                     | _ \<Rightarrow> None)
                | _ \<Rightarrow> None)
             else (case unescape e of None \<Rightarrow> None | Some ch \<Rightarrow> consFst ch (lexString r)))
      else if c < 0x20 then None
      else consFst c (lexString cs))"

text \<open>
  A number: an optional minus, \<open>0\<close> or a digit sequence without leading zero, an optional
  fraction, an optional exponent. Each part gives its characters and what follows them.
\<close>

definition lexInt :: "jsstring \<Rightarrow> (jsstring \<times> jsstring) option" where
  "lexInt cs =
     (case cs of
        [] \<Rightarrow> None
      | d # r \<Rightarrow>
          if d = 0x30 then Some ([d], r)
          else if isDigit d then Some (d # takeWhile isDigit r, dropWhile isDigit r)
          else None)"

definition lexFrac :: "jsstring \<Rightarrow> (jsstring \<times> jsstring) option" where
  "lexFrac cs =
     (case cs of
        [] \<Rightarrow> Some ([], cs)
      | p # r \<Rightarrow>
          if p = 0x2E
          then (if takeWhile isDigit r = [] then None
                else Some (p # takeWhile isDigit r, dropWhile isDigit r))
          else Some ([], cs))"

definition lexExp :: "jsstring \<Rightarrow> (jsstring \<times> jsstring) option" where
  "lexExp cs =
     (case cs of
        [] \<Rightarrow> Some ([], cs)
      | e # r \<Rightarrow>
          if e = 0x65 \<or> e = 0x45
          then
            (let (sg, r') = (case r of
                               [] \<Rightarrow> ([], r)
                             | s # t \<Rightarrow> if s = 0x2B \<or> s = 0x2D then ([s], t) else ([], r))
             in if takeWhile isDigit r' = [] then None
                else Some (e # sg @ takeWhile isDigit r', dropWhile isDigit r'))
          else Some ([], cs))"

definition lexNumber :: "jsstring \<Rightarrow> (jsstring \<times> jsstring) option" where
  "lexNumber cs =
     (let (sign, r0) = (case cs of [] \<Rightarrow> ([], cs) | c # r \<Rightarrow> if c = 0x2D then ([c], r) else ([], cs))
      in case lexInt r0 of
           None \<Rightarrow> None
         | Some (ip, r1) \<Rightarrow>
             (case lexFrac r1 of
                None \<Rightarrow> None
              | Some (fp, r2) \<Rightarrow>
                  (case lexExp r2 of
                     None \<Rightarrow> None
                   | Some (ep, r3) \<Rightarrow> Some (sign @ ip @ fp @ ep, r3))))"

text \<open>Every token consumes input, which is why the lexer below terminates.\<close>

lemma lexString_length: "lexString cs = Some (s, r) \<Longrightarrow> length r < Suc (length cs)"
proof (induction cs arbitrary: s r rule: lexString.induct)
  case 1
  then show ?case by simp
next
  case (2 c cs)
  show ?case
    using "2.prems" "2.IH"
    by (fastforce simp: consFst_def less_Suc_eq split: if_splits list.splits option.splits prod.splits)
qed

lemma lexInt_length: "lexInt cs = Some (n, r) \<Longrightarrow> length r < length cs"
  using length_dropWhile_le[of isDigit "tl cs"]
  by (auto simp: lexInt_def less_Suc_eq_le split: list.splits if_splits)

lemma lexFrac_length: "lexFrac cs = Some (n, r) \<Longrightarrow> length r \<le> length cs"
  using length_dropWhile_le[of isDigit "tl cs"]
  by (auto simp: lexFrac_def split: list.splits if_splits)

lemma lexExp_length: "lexExp cs = Some (n, r) \<Longrightarrow> length r \<le> length cs"
proof -
  have a: "length (dropWhile isDigit (tl cs)) \<le> length cs"
    using length_dropWhile_le[of isDigit "tl cs"] by simp
  have b: "length (dropWhile isDigit (tl (tl cs))) \<le> length cs"
    using length_dropWhile_le[of isDigit "tl (tl cs)"] by simp
  assume "lexExp cs = Some (n, r)"
  then show ?thesis using a b
    by (auto simp: lexExp_def Let_def split: list.splits if_splits)
qed

lemma lexNumber_length:
  assumes "lexNumber (c # cs) = Some (n, r)"
  shows "length r < Suc (length cs)"
proof -
  obtain sign r0 where s: "(case c # cs of [] \<Rightarrow> ([], c # cs) | c' # r' \<Rightarrow> if c' = 0x2D then ([c'], r') else ([], c # cs)) = (sign, r0)"
    by (cases "(case c # cs of [] \<Rightarrow> ([], c # cs) | c' # r' \<Rightarrow> if c' = 0x2D then ([c'], r') else ([]::jsstring, c # cs))")
  then have l0: "length r0 \<le> Suc (length cs)" by (auto split: if_splits)
  from assms s obtain ip r1 fp r2 ep where
    "lexInt r0 = Some (ip, r1)" "lexFrac r1 = Some (fp, r2)" "lexExp r2 = Some (ep, r)"
    unfolding lexNumber_def by (auto simp: Let_def split: option.splits)
  then have "length r1 < length r0" "length r2 \<le> length r1" "length r \<le> length r2"
    by (auto dest: lexInt_length lexFrac_length lexExp_length)
  then show ?thesis using l0 by simp
qed

function lex :: "jsstring \<Rightarrow> token list option" where
  "lex [] = Some []"
| "lex (c # cs) =
     (if isJsonSpace c then lex cs
      else if c = 0x7B then map_option (Cons TLBrace) (lex cs)
      else if c = 0x7D then map_option (Cons TRBrace) (lex cs)
      else if c = 0x5B then map_option (Cons TLBracket) (lex cs)
      else if c = 0x5D then map_option (Cons TRBracket) (lex cs)
      else if c = 0x3A then map_option (Cons TColon) (lex cs)
      else if c = 0x2C then map_option (Cons TComma) (lex cs)
      else if c = 0x22 then
        (case lexString cs of
           None \<Rightarrow> None
         | Some (s, r) \<Rightarrow> map_option (Cons (TString s)) (lex r))
      else if c = 0x2D \<or> isDigit c then
        (case lexNumber (c # cs) of
           None \<Rightarrow> None
         | Some (n, r) \<Rightarrow> map_option (Cons (TNumber n)) (lex r))
      else if take 4 (c # cs) = js ''true'' then map_option (Cons TTrue) (lex (drop 3 cs))
      else if take 5 (c # cs) = js ''false'' then map_option (Cons TFalse) (lex (drop 4 cs))
      else if take 4 (c # cs) = js ''null'' then map_option (Cons TNull) (lex (drop 3 cs))
      else None)"
  by pat_completeness auto
termination
  by (relation "measure length") (auto dest: lexString_length lexNumber_length)

text \<open>
  The parser: the frames are the arrays and objects still open (an array with its elements
  so far, last first; an object with its members so far, and the key whose value is being
  read); the state says what the grammar allows next.
\<close>

datatype frame =
    InArray "jsvalue list"
  | InObject "(jsstring \<times> jsvalue) list"
  | InMember "(jsstring \<times> jsvalue) list" jsstring

datatype pstate =
    ExpectValue | ExpectValueOrEnd | ExpectKeyOrEnd | ExpectKey | ExpectColon | AfterValue jsvalue

fun beginValue :: "token \<Rightarrow> frame list \<Rightarrow> (pstate \<times> frame list) option" where
  "beginValue (TString s) stack = Some (AfterValue (JString s), stack)"
| "beginValue (TNumber n) stack = Some (AfterValue (JNumber n), stack)"
| "beginValue TTrue stack = Some (AfterValue (JBool True), stack)"
| "beginValue TFalse stack = Some (AfterValue (JBool False), stack)"
| "beginValue TNull stack = Some (AfterValue JNull, stack)"
| "beginValue TLBracket stack = Some (ExpectValueOrEnd, InArray [] # stack)"
| "beginValue TLBrace stack = Some (ExpectKeyOrEnd, InObject [] # stack)"
| "beginValue t stack = None"

fun beginMember :: "token \<Rightarrow> frame list \<Rightarrow> (pstate \<times> frame list) option" where
  "beginMember (TString k) (InObject ms # rest) = Some (ExpectColon, InMember ms k # rest)"
| "beginMember t stack = None"

fun parseStep :: "pstate \<Rightarrow> frame list \<Rightarrow> token \<Rightarrow> (pstate \<times> frame list) option" where
  "parseStep ExpectValue stack t = beginValue t stack"
| "parseStep ExpectValueOrEnd stack t =
     (if t = TRBracket
      then (case stack of InArray vs # rest \<Rightarrow> Some (AfterValue (JArray (rev vs)), rest) | _ \<Rightarrow> None)
      else beginValue t stack)"
| "parseStep ExpectKeyOrEnd stack t =
     (if t = TRBrace
      then (case stack of InObject ms # rest \<Rightarrow> Some (AfterValue (JObject ms), rest) | _ \<Rightarrow> None)
      else beginMember t stack)"
| "parseStep ExpectKey stack t = beginMember t stack"
| "parseStep ExpectColon stack t = (if t = TColon then Some (ExpectValue, stack) else None)"
| "parseStep (AfterValue v) stack t =
     (case stack of
        InArray vs # rest \<Rightarrow>
          if t = TComma then Some (ExpectValue, InArray (v # vs) # rest)
          else if t = TRBracket then Some (AfterValue (JArray (rev (v # vs))), rest)
          else None
      | InMember ms k # rest \<Rightarrow>
          if t = TComma then Some (ExpectKey, InObject (setProp k v ms) # rest)
          else if t = TRBrace then Some (AfterValue (JObject (setProp k v ms)), rest)
          else None
      | _ \<Rightarrow> None)"

fun parseTokens :: "pstate \<Rightarrow> frame list \<Rightarrow> token list \<Rightarrow> jsvalue option" where
  "parseTokens st stack [] =
     (case st of AfterValue v \<Rightarrow> (if stack = [] then Some v else None) | _ \<Rightarrow> None)"
| "parseTokens st stack (t # ts) =
     (case parseStep st stack t of
        None \<Rightarrow> None
      | Some (st', stack') \<Rightarrow> parseTokens st' stack' ts)"

definition JSON_parse :: "jsstring \<Rightarrow> jsvalue option" where
  "JSON_parse text = (case lex text of None \<Rightarrow> None | Some ts \<Rightarrow> parseTokens ExpectValue [] ts)"

section \<open>Parsing and sanitizing the triage response (\<open>hooks.service.ts\<close>)\<close>

record TriageResult =
  tr_priority :: "UrgencyLevel option"
  labels :: "jsstring list option"
  flag :: "bool option"
  action :: "jsstring option"

definition emptyTriageResult :: TriageResult where
  "emptyTriageResult = \<lparr>tr_priority = None, labels = None, flag = None, action = None\<rparr>"

fun levelName :: "UrgencyLevel \<Rightarrow> jsstring" where
  "levelName urgent = js ''urgent''"
| "levelName high = js ''high''"
| "levelName normal = js ''normal''"
| "levelName low = js ''low''"

text \<open>\<open>['urgent', 'high', 'normal', 'low'].includes(v)\<close>, giving the level found.\<close>

fun knownLevel :: "jsvalue \<Rightarrow> UrgencyLevel option" where
  "knownLevel (JString s) =
     (if s = js ''urgent'' then Some urgent
      else if s = js ''high'' then Some high
      else if s = js ''normal'' then Some normal
      else if s = js ''low'' then Some low
      else None)"
| "knownLevel v = None"

fun stringsOf :: "jsvalue list \<Rightarrow> jsstring list" where
  "stringsOf [] = []"
| "stringsOf (JString s # vs) = s # stringsOf vs"
| "stringsOf (v # vs) = stringsOf vs"

fun isObjectValue :: "jsvalue \<Rightarrow> bool" where
  "isObjectValue (JObject ms) = True"
| "isObjectValue (JArray vs) = True"
| "isObjectValue v = False"

definition sanitizeTriageResult :: "jsvalue \<Rightarrow> TriageResult" where
  "sanitizeTriageResult raw =
     (if \<not> isObjectValue raw then emptyTriageResult
      else
        \<lparr>tr_priority = knownLevel (getProp raw (js ''priority'')),
         labels = (case getProp raw (js ''labels'') of
                     JArray ls \<Rightarrow> Some (take 5 (stringsOf ls))
                   | _ \<Rightarrow> None),
         flag = (case getProp raw (js ''flag'') of JBool b \<Rightarrow> Some b | _ \<Rightarrow> None),
         action = (case getProp raw (js ''action'') of
                     JString a \<Rightarrow> Some (take 200 a)
                   | _ \<Rightarrow> None)\<rparr>)"

text \<open>A \<open>TriageResult\<close> seen again as a value, an absent field being \<open>undefined\<close>.\<close>

definition triageValue :: "TriageResult \<Rightarrow> jsvalue" where
  "triageValue t =
     JObject
       [(js ''priority'', case tr_priority t of None \<Rightarrow> JUndefined | Some p \<Rightarrow> JString (levelName p)),
        (js ''labels'', case labels t of None \<Rightarrow> JUndefined | Some ls \<Rightarrow> JArray (map JString ls)),
        (js ''flag'', case flag t of None \<Rightarrow> JUndefined | Some b \<Rightarrow> JBool b),
        (js ''action'', case action t of None \<Rightarrow> JUndefined | Some a \<Rightarrow> JString a)]"

text \<open>
  \<open>text.replace(/```(?:json)?\n?/g, '')\<close>: every three backquotes, with a following \<open>json\<close>
  and a following line feed when present, are removed.
\<close>

definition skipOptional :: "jsstring \<Rightarrow> jsstring \<Rightarrow> jsstring" where
  "skipOptional w cs = (if take (length w) cs = w then drop (length w) cs else cs)"

definition afterFence :: "jsstring \<Rightarrow> jsstring" where
  "afterFence cs = skipOptional [0x0A] (skipOptional (js ''json'') (drop 3 cs))"

lemma skipOptional_length: "length (skipOptional w cs) \<le> length cs"
  by (simp add: skipOptional_def)

lemma afterFence_length: "length (afterFence (c # cs)) < Suc (length cs)"
proof -
  have "length (afterFence (c # cs)) \<le> length (drop 3 (c # cs))"
    unfolding afterFence_def by (intro order_trans[OF skipOptional_length] skipOptional_length)
  then show ?thesis by simp
qed

function stripFences :: "jsstring \<Rightarrow> jsstring" where
  "stripFences [] = []"
| "stripFences (c # cs) =
     (if take 3 (c # cs) = [0x60, 0x60, 0x60]
      then stripFences (afterFence (c # cs))
      else c # stripFences cs)"
  by pat_completeness auto
termination
  by (relation "measure length") (auto simp: afterFence_length)

text \<open>\<open>String.prototype.trim\<close>: white space and line terminators are cut from both ends.\<close>

definition isWhiteSpace :: "16 word \<Rightarrow> bool" where
  "isWhiteSpace c =
     ((0x09 \<le> c \<and> c \<le> 0x0D) \<or> c = 0x20 \<or> c = 0xA0 \<or> c = 0x1680
      \<or> (0x2000 \<le> c \<and> c \<le> 0x200A) \<or> c = 0x2028 \<or> c = 0x2029 \<or> c = 0x202F
      \<or> c = 0x205F \<or> c = 0x3000 \<or> c = 0xFEFF)"

definition trim :: "jsstring \<Rightarrow> jsstring" where
  "trim s = rev (dropWhile isWhiteSpace (rev (dropWhile isWhiteSpace s)))"

text \<open>\<open>expectedCount\<close> is the length of the batch, a natural number.\<close>

definition parseTriageResponse :: "jsstring \<Rightarrow> nat \<Rightarrow> TriageResult list" where
  "parseTriageResponse text expectedCount =
     (let cleaned = trim (stripFences text)
      in case JSON_parse cleaned of
           Some (JArray parsed) \<Rightarrow> map sanitizeTriageResult (take expectedCount parsed)
         | Some (JObject ms) \<Rightarrow> [sanitizeTriageResult (JObject ms)]
         | _ \<Rightarrow> replicate expectedCount emptyTriageResult)"

section \<open>The hooks service (\<open>hooks.service.ts\<close>)\<close>

text \<open>
  \<open>HooksConfig\<close> is declared in \<open>types/index.ts\<close>, which is not among the sources: the record
  has the fields the service reads; \<open>onNewEmail\<close> is compared with \<open>'none'\<close> and \<open>'triage'\<close>.
\<close>

datatype onNewEmailMode = none | notify | triage

fun modeName :: "onNewEmailMode \<Rightarrow> jsstring" where
  "modeName none = js ''none''"
| "modeName notify = js ''notify''"
| "modeName triage = js ''triage''"

record HooksConfig =
  onNewEmail_cfg :: onNewEmailMode
  batchDelay :: int
  autoLabel :: bool
  autoFlag :: bool

record BatchEmail =
  be_account :: jsstring
  be_mailbox :: jsstring
  meta :: EmailMeta

datatype Server = Server nat

datatype BatchTimer = BatchTimer int

record HooksService =
  hooksConfig :: HooksConfig
  lowLevelServer :: "Server option"
  samplingSupported :: bool
  pendingEmails :: "BatchEmail list"
  batchTimer :: "BatchTimer option"
  rateCounter :: nat
  rateResetTimer :: "Interval option"

definition MAX_SAMPLING_PER_MIN :: nat where
  "MAX_SAMPLING_PER_MIN = 10"

definition newHooksService :: "HooksConfig \<Rightarrow> HooksService" where
  "newHooksService cfg = \<lparr>hooksConfig = cfg, lowLevelServer = None, samplingSupported = False,
     pendingEmails = [], batchTimer = None, rateCounter = 0, rateResetTimer = None\<rparr>"

text \<open>
  What the service does to the outside: a log line, a resource-updated notification for a
  URI, the sampling request for a batch (the text of the prompt is not modelled), and the
  two mutations of the mail store, \<open>addLabel(account, mailbox, id, label)\<close> and
  \<open>setFlags(account, mailbox, id, 'flag')\<close>, of \<open>imap.service.ts\<close>, which is not among the
  sources.
\<close>

datatype hooksEffect =
    HLog logLine
  | SendResourceUpdated jsstring
  | CreateMessage "BatchEmail list"
  | AddLabel jsstring jsstring jsstring jsstring
  | SetFlags jsstring jsstring jsstring jsstring

text \<open>
  What a flush meets outside the service: the answer to the sampling request (a rejection
  with its message, or a result with its model and content), and which mutations of the mail
  store fail.
\<close>

datatype samplingContent = TextContent jsstring | OtherContent

record CreateMessageResult =
  model :: jsstring
  content :: "samplingContent option"

datatype samplingOutcome = SamplingRejected jsstring | SamplingReturned CreateMessageResult

record flushEnv =
  sampling :: samplingOutcome
  addLabelFails :: "jsstring \<Rightarrow> jsstring \<Rightarrow> bool"
  setFlagsFails :: "jsstring \<Rightarrow> bool"

definition onNewEmail :: "NewEmailEvent \<Rightarrow> HooksService \<Rightarrow> HooksService" where
  "onNewEmail event hs =
     (let items = map (\<lambda>m. \<lparr>be_account = ev_account event, be_mailbox = ev_mailbox event, meta = m\<rparr>)
                      (emails event)
      in hs\<lparr>pendingEmails := pendingEmails hs @ items,
             batchTimer := (case batchTimer hs of
                              None \<Rightarrow> Some (BatchTimer (batchDelay (hooksConfig hs) * 1000))
                            | Some t \<Rightarrow> Some t)\<rparr>)"

text \<open>\<open>[...new Set(xs)]\<close>: the distinct elements, each at its first occurrence.\<close>

definition distinctInOrder :: "'a list \<Rightarrow> 'a list" where
  "distinctInOrder xs = rev (remdups (rev xs))"

definition sendResourceUpdates :: "BatchEmail list \<Rightarrow> HooksService \<Rightarrow> hooksEffect list" where
  "sendResourceUpdates ems hs =
     (case lowLevelServer hs of
        None \<Rightarrow> []
      | Some srv \<Rightarrow>
          concat (map (\<lambda>a. [SendResourceUpdated (js ''email://'' @ a @ js ''/unread''),
                             SendResourceUpdated (js ''email://'' @ a @ js ''/mailboxes'')])
                      (distinctInOrder (map be_account ems))))"

definition notifyBatch :: "BatchEmail list \<Rightarrow> hooksEffect list" where
  "notifyBatch ems =
     map (\<lambda>e. HLog (LogInfo, hooks,
                 NewEmailLine (be_account e) (be_mailbox e) (subject (meta e)) (address (sender (meta e)))))
         ems"

text \<open>
  \<open>applySingleTriage\<close>: the label calls are all issued before any of them settles, so the
  warnings of the failed ones follow them.
\<close>

definition applySingleTriage :: "flushEnv \<Rightarrow> HooksService \<Rightarrow> BatchEmail \<Rightarrow> TriageResult \<Rightarrow> hooksEffect list" where
  "applySingleTriage env hs email t =
     (let ls = (case labels t of None \<Rightarrow> [] | Some l \<Rightarrow> l);
          mid = id (meta email);
          labelPart =
            (if autoLabel (hooksConfig hs) \<and> length ls > 0
             then map (\<lambda>l. AddLabel (be_account email) (be_mailbox email) mid l) ls
                  @ map (\<lambda>l. HLog (LogWarning, hooks, LabelFailed l mid))
                        (filter (addLabelFails env mid) ls)
             else []);
          flagPart =
            (if autoFlag (hooksConfig hs) \<and> flag t = Some True
             then SetFlags (be_account email) (be_mailbox email) mid (js ''flag'')
                  # (if setFlagsFails env mid then [HLog (LogWarning, hooks, FlagFailed mid)] else [])
             else []);
          summary = HLog (LogInfo, hooks,
            TriageLine (case tr_priority t of None \<Rightarrow> normal | Some p \<Rightarrow> p)
              (subject (meta email)) (address (sender (meta email))) (flag t = Some True) ls);
          actionPart = (case action t of
                          None \<Rightarrow> []
                        | Some a \<Rightarrow> if a = [] then [] else [HLog (LogInfo, hooks, ActionLine a)])
      in labelPart @ flagPart @ [summary] @ actionPart)"

text \<open>\<open>results[i] ?? {}\<close>.\<close>

definition resultAt :: "TriageResult list \<Rightarrow> nat \<Rightarrow> TriageResult" where
  "resultAt results i = (if i < length results then results ! i else emptyTriageResult)"

text \<open>
  \<open>applyTriageResults\<close> runs the messages of the batch concurrently; their effects are
  listed message by message, in the order of the batch.
\<close>

definition applyTriageResults ::
  "flushEnv \<Rightarrow> HooksService \<Rightarrow> BatchEmail list \<Rightarrow> TriageResult list \<Rightarrow> hooksEffect list" where
  "applyTriageResults env hs ems results =
     concat (map (\<lambda>i. applySingleTriage env hs (ems ! i) (resultAt results i)) [0..<length ems])"

definition samplingText :: "CreateMessageResult \<Rightarrow> jsstring" where
  "samplingText result =
     (if model result \<noteq> []
      then (case content result of Some (TextContent t) \<Rightarrow> t | _ \<Rightarrow> [])
      else [])"

definition triageBatch :: "flushEnv \<Rightarrow> BatchEmail list \<Rightarrow> HooksService \<Rightarrow> hooksEffect list \<times> HooksService" where
  "triageBatch env ems hs =
     (if rateCounter hs \<ge> MAX_SAMPLING_PER_MIN
      then (HLog (LogWarning, hooks, RateLimitFallback) # notifyBatch ems, hs)
      else
        let hs1 = hs\<lparr>rateCounter := rateCounter hs + 1\<rparr>
        in case lowLevelServer hs1 of
             None \<Rightarrow>
               (HLog (LogWarning, hooks, SamplingFailed (js ''Server not available''))
                  # notifyBatch ems, hs1)
           | Some srv \<Rightarrow>
               (case sampling env of
                  SamplingRejected errMsg \<Rightarrow>
                    (CreateMessage ems # HLog (LogWarning, hooks, SamplingFailed errMsg)
                       # notifyBatch ems, hs1)
                | SamplingReturned result \<Rightarrow>
                    (CreateMessage ems
                       # applyTriageResults env hs1 ems
                           (parseTriageResponse (samplingText result) (length ems)), hs1)))"

text \<open>
  \<open>flushBatch\<close> is an \<open>async\<close> function: it runs synchronously to its first \<open>await\<close>, which is
  the one on \<open>sendResourceUpdates\<close>, and the rest runs later, on the local \<open>batch\<close>.
  \<open>flushBatch_sync\<close> is the part before the first \<open>await\<close>, giving the local \<open>batch\<close>;
  \<open>flushBatch_async\<close> is the rest, from the test of the length of the batch on.
\<close>

definition flushBatch_sync :: "HooksService \<Rightarrow> BatchEmail list \<times> HooksService" where
  "flushBatch_sync hs = (pendingEmails hs, hs\<lparr>batchTimer := None, pendingEmails := []\<rparr>)"

definition flushBatch_async :: "flushEnv \<Rightarrow> BatchEmail list \<Rightarrow> HooksService \<Rightarrow> hooksEffect list \<times> HooksService" where
  "flushBatch_async env batch hs =
     (if length batch = 0 then ([], hs)
      else
        let updates = sendResourceUpdates batch hs
        in if onNewEmail_cfg (hooksConfig hs) = triage \<and> samplingSupported hs
           then (case triageBatch env batch hs of (eff, hs') \<Rightarrow> (updates @ eff, hs'))
           else (updates @ notifyBatch batch, hs))"

definition flushBatch :: "flushEnv \<Rightarrow> HooksService \<Rightarrow> hooksEffect list \<times> HooksService" where
  "flushBatch env hs = (case flushBatch_sync hs of (batch, hs1) \<Rightarrow> flushBatch_async env batch hs1)"

text \<open>The callback of the 60-second interval set by \<open>start\<close>.\<close>

definition rateResetFired :: "HooksService \<Rightarrow> HooksService" where
  "rateResetFired hs = hs\<lparr>rateCounter := 0\<rparr>"

text \<open>
  The process as the listeners of the bus see it: the hooks service, and the state \<open>'x\<close> of
  whatever else subscribes. \<open>start\<close> and \<open>stop\<close> act on the service and on the one bus of
  the process.
\<close>

record 'x process =
  hooksService :: HooksService
  others :: 'x

definition hooksListener :: "'x process listener" where
  "hooksListener ev p =
     (case ev of
        NewEmail event \<Rightarrow> Returns (p\<lparr>hooksService := onNewEmail event (hooksService p)\<rparr>)
      | Expunge x \<Rightarrow> Returns p)"

definition start ::
  "Server \<Rightarrow> bool option \<Rightarrow> 'x process \<times> 'x process EmailEventBus
     \<Rightarrow> ('x process \<times> 'x process EmailEventBus) \<times> hooksEffect list" where
  "start srv samplingCapability w =
     (case w of (p, bus) \<Rightarrow>
        let hs1 = (hooksService p)\<lparr>lowLevelServer := Some srv,
                                    samplingSupported := (samplingCapability = Some True)\<rparr>
        in if onNewEmail_cfg (hooksConfig hs1) = none then ((p\<lparr>hooksService := hs1\<rparr>, bus), [])
           else ((p\<lparr>hooksService := hs1\<lparr>rateResetTimer := Some (Interval 60000)\<rparr>\<rparr>,
                  on email_new hooksListener bus),
                 [HLog (LogInfo, hooks,
                    HooksActive (modeName (onNewEmail_cfg (hooksConfig hs1))) (samplingSupported hs1))]))"

definition stop :: "'x process \<times> 'x process EmailEventBus \<Rightarrow> 'x process \<times> 'x process EmailEventBus" where
  "stop w =
     (case w of (p, bus) \<Rightarrow>
        (p\<lparr>hooksService := (hooksService p)\<lparr>batchTimer := None, pendingEmails := [],
                                             rateResetTimer := None\<rparr>\<rparr>,
         removeAllListeners email_new bus))"

text \<open>
  The engine at work: the service, the batches whose flush has passed its synchronous part
  and not yet run its rest, the batches whose flush has run to its end, and the effects so
  far. An arrival calls \<open>onNewEmail\<close>; the batch timer fires when one is set; a flush in
  flight resumes.
\<close>

record engine =
  service :: HooksService
  inFlight :: "BatchEmail list list"
  flushed :: "BatchEmail list list"
  effects :: "hooksEffect list"

datatype engineEvent = Arrival NewEmailEvent | BatchTimerFired | FlushResumed flushEnv

fun engineStep :: "engineEvent \<Rightarrow> engine \<Rightarrow> engine" where
  "engineStep (Arrival event) e = e\<lparr>service := onNewEmail event (service e)\<rparr>"
| "engineStep BatchTimerFired e =
     (case batchTimer (service e) of
        None \<Rightarrow> e
      | Some t \<Rightarrow>
          (case flushBatch_sync (service e) of
             (batch, hs1) \<Rightarrow> e\<lparr>service := hs1, inFlight := inFlight e @ [batch]\<rparr>))"
| "engineStep (FlushResumed env) e =
     (case inFlight e of
        [] \<Rightarrow> e
      | batch # rest \<Rightarrow>
          (case flushBatch_async env batch (service e) of
             (eff, hs1) \<Rightarrow>
               e\<lparr>service := hs1, inFlight := rest, flushed := flushed e @ [batch],
                  effects := effects e @ eff\<rparr>))"

definition runEngine :: "engineEvent list \<Rightarrow> engine \<Rightarrow> engine" where
  "runEngine evs e = fold engineStep evs e"

definition newEngine :: "HooksService \<Rightarrow> engine" where
  "newEngine hs = \<lparr>service = hs, inFlight = [], flushed = [], effects = []\<rparr>"

text \<open>The messages a history of the engine brought in, in their order of arrival.\<close>

fun arrived :: "engineEvent list \<Rightarrow> BatchEmail list" where
  "arrived [] = []"
| "arrived (Arrival event # evs) =
     map (\<lambda>m. \<lparr>be_account = ev_account event, be_mailbox = ev_mailbox event, meta = m\<rparr>) (emails event)
       @ arrived evs"
| "arrived (ev # evs) = arrived evs"

fun isMutation :: "hooksEffect \<Rightarrow> bool" where
  "isMutation (AddLabel a m i l) = True"
| "isMutation (SetFlags a m i f) = True"
| "isMutation eff = False"

fun isCreateMessage :: "hooksEffect \<Rightarrow> bool" where
  "isCreateMessage (CreateMessage ems) = True"
| "isCreateMessage eff = False"

fun isTriageLine :: "hooksEffect \<Rightarrow> bool" where
  "isTriageLine (HLog (lv, lg, TriageLine p s f fl ls)) = True"
| "isTriageLine eff = False"

fun isNotification :: "hooksEffect \<Rightarrow> bool" where
  "isNotification (HLog (lv, lg, NewEmailLine a m s f)) = True"
| "isNotification eff = False"

text \<open>What a \<open>TriageResult\<close> must satisfy: at most 5 labels, an action of at most 200 code units.\<close>

definition validTriageResult :: "TriageResult \<Rightarrow> bool" where
  "validTriageResult t =
     ((case labels t of None \<Rightarrow> True | Some ls \<Rightarrow> length ls \<le> 5)
      \<and> (case action t of None \<Rightarrow> True | Some a \<Rightarrow> length a \<le> 200))"

text \<open>Examples.\<close>

definition exampleMeta :: "jsstring \<Rightarrow> EmailMeta" where
  "exampleMeta i = \<lparr>id = i, subject = js ''Hello'',
     sender = \<lparr>addr_name = None, address = js ''alice@example.org''\<rparr>, recipients = [],
     date = js ''2026-01-01T00:00:00.000Z'', seen = False, flagged = False, answered = False,
     hasAttachments = False, meta_labels = []\<rparr>"

definition exampleEvent :: "jsstring list \<Rightarrow> NewEmailEvent" where
  "exampleEvent ids = \<lparr>ev_account = js ''work'', ev_mailbox = js ''INBOX'', emails = map exampleMeta ids\<rparr>"

definition exampleHooks :: HooksService where
  "exampleHooks = \<lparr>hooksConfig = \<lparr>onNewEmail_cfg = triage, batchDelay = 5, autoLabel = True, autoFlag = True\<rparr>,
     lowLevelServer = Some (Server 1), samplingSupported = True, pendingEmails = [], batchTimer = None,
     rateCounter = 10, rateResetTimer = Some (Interval 60000)\<rparr>"

definition exampleFlushEnv :: flushEnv where
  "exampleFlushEnv = \<lparr>sampling = SamplingRejected (js ''unused''),
     addLabelFails = (\<lambda>i l. False), setFlagsFails = (\<lambda>i. False)\<rparr>"

definition exampleRaw :: jsvalue where
  "exampleRaw = JObject
     [(js ''priority'', JString (js ''urgent'')),
      (js ''labels'', JArray [JString (js ''a''), JNumber (js ''1''), JString (js ''b''), JString (js ''c''),
                              JString (js ''d''), JNull, JString (js ''e''), JString (js ''f'')]),
      (js ''flag'', JString (js ''yes'')),
      (js ''action'', JString (replicate 300 0x78))]"

text \<open>The messages an engine holds: in the batches flushed, in those in flight, and pending.\<close>

definition heldBy :: "engine \<Rightarrow> BatchEmail list" where
  "heldBy e = concat (flushed e) @ concat (inFlight e) @ pendingEmails (service e)"

text \<open>More examples: a batch, a history of the engine, and listeners on buses.\<close>

definition exampleBatch :: "BatchEmail list" where
  "exampleBatch = map (\<lambda>i. \<lparr>be_account = js ''work'', be_mailbox = js ''INBOX'', meta = exampleMeta i\<rparr>)
     [js ''1'', js ''2'', js ''3'', js ''4'']"

definition exampleBatchEmail :: "jsstring \<Rightarrow> BatchEmail" where
  "exampleBatchEmail i = \<lparr>be_account = js ''work'', be_mailbox = js ''INBOX'', meta = exampleMeta i\<rparr>"

definition exampleHistory :: "engineEvent list" where
  "exampleHistory = [Arrival (exampleEvent [js ''1'', js ''2'']), BatchTimerFired,
     Arrival (exampleEvent [js ''3'']), FlushResumed exampleFlushEnv, BatchTimerFired,
     FlushResumed exampleFlushEnv]"

definition thrower :: "nat list listener" where
  "thrower ev s = Throws (js ''boom'') s"

definition recorder :: "nat \<Rightarrow> nat list listener" where
  "recorder k ev s = Returns (s @ [k])"

definition exampleBus :: "nat list EmailEventBus" where
  "exampleBus = on email_new (recorder 3) (on email_new thrower (on email_new (recorder 1) newEventBus))"

definition exampleExpunge :: busEvent where
  "exampleExpunge = Expunge \<lparr>ex_account = js ''work'', ex_mailbox = js ''INBOX'', ex_count = 1\<rparr>"

definition exampleProcess :: "nat list process" where
  "exampleProcess = \<lparr>hooksService = exampleHooks, others = []\<rparr>"

definition foreignListener :: "nat list process listener" where
  "foreignListener ev p = Returns (p\<lparr>others := others p @ [1]\<rparr>)"

section \<open>Properties of the watcher\<close>






lemma fetchLoop_none:
  "\<forall>m\<in>set msgs. uid m \<le> lastSeen \<Longrightarrow> fetchLoop lastSeen now msgs (ems, mx) = Inr (ems, mx)"
  by (induction msgs) (auto simp: loopBody_def)




lemma idleStates_watcherLog [simp]: "idleStates (watcherLog lv m ws) = idleStates ws"
  by (simp add: watcherLog_def)

lemma idleStates_updateState:
  "idleStates ws key = Some st \<Longrightarrow> idleStates (updateState key f ws) = (idleStates ws)(key \<mapsto> f st)"
  by (simp add: updateState_def)













lemma scheduleReconnect_step:
  assumes "idleStates ws key = Some st" and "\<not> stopped st"
  shows "idleStates (scheduleReconnect key ws) key =
           Some (st\<lparr>reconnectTimer := Some (Timeout (backoffMs st) (backoffMs st))\<rparr>)"
  using assms by (simp add: scheduleReconnect_def Let_def idleStates_updateState)

lemma reconnect_fail_step:
  assumes "idleStates ws key = Some st" and "\<not> stopped st"
  shows "idleStates (reconnectTimerFired key t (ConnectError e) ws) key =
           Some (st\<lparr>backoffMs := min (captured t * 2) MAX_BACKOFF_MS,
                    reconnectTimer := Some (Timeout (min (captured t * 2) MAX_BACKOFF_MS)
                                                    (min (captured t * 2) MAX_BACKOFF_MS))\<rparr>)"
  using assms
  by (simp add: reconnectTimerFired_def connectIdle_def idleStates_updateState scheduleReconnect_step)

lemma reconnect_ok_step:
  assumes "idleStates ws key = Some st" and "\<not> stopped st"
  shows "idleStates (reconnectTimerFired key t (Connected c l mailbox) ws) key =
           Some (st\<lparr>backoffMs := INITIAL_BACKOFF_MS, client := Some c, lock := Some l,
                    lastSeenUid := resolveUidNext mailbox - 1\<rparr>)"
  using assms
  by (simp add: reconnectTimerFired_def connectIdle_def idleStates_updateState Let_def)

lemma connectIdle_ok_step:
  assumes "idleStates ws key = Some st" and "\<not> stopped st"
  shows "idleStates (connectIdle key (Connected c l mailbox) ws) key =
           Some (st\<lparr>client := Some c, lock := Some l,
                    lastSeenUid := resolveUidNext mailbox - 1, backoffMs := INITIAL_BACKOFF_MS\<rparr>)"
  using assms
  by (simp add: connectIdle_def idleStates_updateState Let_def)

lemma onClose_step:
  assumes "idleStates ws key = Some st" and "\<not> stopped st"
  shows "idleStates (onClose key ws) key =
           Some (st\<lparr>lock := None, client := None,
                    reconnectTimer := Some (Timeout (backoffMs st) (backoffMs st))\<rparr>)"
  using assms
  by (simp add: onClose_def idleStates_updateState Let_def scheduleReconnect_step)

lemma backoffSeq_Suc:
  assumes "0 \<le> b" and "b \<le> MAX_BACKOFF_MS"
  shows "backoffSeq b (Suc n) = b # backoffSeq (min (b * 2) MAX_BACKOFF_MS) n"
proof -
  have up: "[0..<Suc n] = 0 # map Suc [0..<n]"
    by (simp add: upt_conv_Cons map_Suc_upt del: upt_Suc)
  have step: "min (min (b * 2) MAX_BACKOFF_MS * 2 ^ i) MAX_BACKOFF_MS = min (b * 2 ^ Suc i) MAX_BACKOFF_MS" for i
  proof (cases "b * 2 \<le> MAX_BACKOFF_MS")
    case True
    then show ?thesis by (simp add: mult.assoc)
  next
    case False
    have p: "(1::int) \<le> 2 ^ i" by simp
    have M: "0 \<le> MAX_BACKOFF_MS" using assms by simp
    have "MAX_BACKOFF_MS \<le> MAX_BACKOFF_MS * 2 ^ i" using p M by (simp add: mult_le_cancel_left1)
    moreover have "MAX_BACKOFF_MS \<le> b * 2 * 2 ^ i"
    proof -
      have "b * 2 * 1 \<le> b * 2 * 2 ^ i" using p assms(1) by (intro mult_left_mono) auto
      then show ?thesis using False by simp
    qed
    ultimately show ?thesis using False by (simp add: mult.assoc)
  qed
  show ?thesis using assms
    unfolding backoffSeq_def up by (simp add: step del: upt_Suc power_Suc)
qed

lemma failureRun_delays:
  assumes "idleStates ws key = Some st" and "\<not> stopped st"
    and "reconnectTimer st = Some (Timeout b b)" and "0 \<le> b" and "b \<le> MAX_BACKOFF_MS"
  shows "fst (failureRun key es ws) = backoffSeq b (length es)"
  using assms
proof (induction es arbitrary: ws st b)
  case Nil
  then show ?case by (simp add: backoffSeq_def)
next
  case (Cons e es)
  let ?b' = "min (b * 2) MAX_BACKOFF_MS"
  let ?ws' = "reconnectTimerFired key (Timeout b b) (ConnectError e) ws"
  let ?st' = "st\<lparr>backoffMs := ?b', reconnectTimer := Some (Timeout ?b' ?b')\<rparr>"
  have s: "idleStates ?ws' key = Some ?st'"
    using reconnect_fail_step[OF Cons.prems(1,2), of "Timeout b b" e] by simp
  have "fst (failureRun key es ?ws') = backoffSeq ?b' (length es)"
    by (rule Cons.IH[OF s]) (use Cons.prems in auto)
  then show ?case using Cons.prems
    by (auto simp: backoffSeq_Suc split: prod.splits)
qed

lemma failureRun_state:
  assumes "idleStates ws key = Some st" and "\<not> stopped st"
    and "reconnectTimer st = Some (Timeout b b)"
  shows "\<exists>st' b'. idleStates (snd (failureRun key es ws)) key = Some st' \<and> \<not> stopped st'
           \<and> reconnectTimer st' = Some (Timeout b' b')"
  using assms
proof (induction es arbitrary: ws st b)
  case Nil
  then show ?case by simp
next
  case (Cons e es)
  let ?b' = "min (b * 2) MAX_BACKOFF_MS"
  let ?ws' = "reconnectTimerFired key (Timeout b b) (ConnectError e) ws"
  let ?st' = "st\<lparr>backoffMs := ?b', reconnectTimer := Some (Timeout ?b' ?b')\<rparr>"
  have s: "idleStates ?ws' key = Some ?st'"
    using reconnect_fail_step[OF Cons.prems(1,2), of "Timeout b b" e] by simp
  have "\<exists>st' b'. idleStates (snd (failureRun key es ?ws')) key = Some st' \<and> \<not> stopped st'
           \<and> reconnectTimer st' = Some (Timeout b' b')"
    by (rule Cons.IH[OF s]) (use Cons.prems in auto)
  then show ?case using Cons.prems by (auto split: prod.splits)
qed

lemma backoffSeq_sorted:
  assumes "0 \<le> b"
  shows "sorted (backoffSeq b n)"
proof -
  have "min (b * 2 ^ i) MAX_BACKOFF_MS \<le> min (b * 2 ^ j) MAX_BACKOFF_MS" if "i \<le> j" for i j :: nat
  proof -
    have "(2::int) ^ i \<le> 2 ^ j" using that by (simp add: power_increasing)
    then have "b * 2 ^ i \<le> b * 2 ^ j" using assms by (rule mult_left_mono)
    then show ?thesis by (simp add: min_le_iff_disj)
  qed
  then show ?thesis
    unfolding backoffSeq_def by (simp add: sorted_iff_nth_mono del: upt_Suc)
qed

lemma backoffSeq_bounds:
  assumes "INITIAL_BACKOFF_MS \<le> b" and "d \<in> set (backoffSeq b n)"
  shows "INITIAL_BACKOFF_MS \<le> d \<and> d \<le> MAX_BACKOFF_MS"
proof -
  from assms(2) obtain i where d: "d = min (b * 2 ^ i) MAX_BACKOFF_MS"
    by (auto simp: backoffSeq_def)
  have "0 \<le> b" using assms(1) by (simp add: INITIAL_BACKOFF_MS_def)
  then have "b * 1 \<le> b * 2 ^ i" by (intro mult_left_mono) auto
  then have "b \<le> b * 2 ^ i" by simp
  then have "INITIAL_BACKOFF_MS \<le> b * 2 ^ i" using assms(1) by (rule order_trans[rotated])
  then show ?thesis unfolding d
    by (simp add: INITIAL_BACKOFF_MS_def MAX_BACKOFF_MS_def)
qed

lemma backoffSeq_doubles:
  assumes "0 \<le> b" and "Suc i < n"
  shows "backoffSeq b n ! Suc i = min (backoffSeq b n ! i * 2) MAX_BACKOFF_MS"
proof -
  have "min (b * 2 ^ Suc i) MAX_BACKOFF_MS = min (min (b * 2 ^ i) MAX_BACKOFF_MS * 2) MAX_BACKOFF_MS"
    by (simp add: MAX_BACKOFF_MS_def min_def mult.assoc)
  then show ?thesis using assms(2) by (simp add: backoffSeq_def del: power_Suc upt_Suc)
qed

lemma startIdle_failed:
  "idleStates (startIdle acc fld (ConnectError e) ws) (name acc @ js '':'' @ fld) =
     Some \<lparr>client = None, account = acc, folder = fld, lastSeenUid = 0, lock = None,
           reconnectTimer = Some (Timeout INITIAL_BACKOFF_MS INITIAL_BACKOFF_MS),
           backoffMs = INITIAL_BACKOFF_MS, stopped = False\<rparr>"
  by (simp add: startIdle_def connectIdle_def scheduleReconnect_def updateState_def watcherLog_def
      Let_def)

text \<open>
  Claim C4. Across a run of consecutive connection failures of one target, the delays
  waited before the attempts are the exponential sequence from the pending delay \<open>b\<close>: it
  never decreases, every delay lies between the initial value (1000 ms) and the maximum
  (60000 ms), each delay is the double of the one before, capped at the maximum, and a
  successful connect at the end of the run puts \<open>backoffMs\<close> back to the initial value, so
  that the run of failures after the next close starts from 1000 ms again, as does the run
  that follows a failed first connect.
\<close>

theorem reconnect_backoff:
  assumes "idleStates ws key = Some st" and "\<not> stopped st"
    and "reconnectTimer st = Some (Timeout b b)"
    and "INITIAL_BACKOFF_MS \<le> b" and "b \<le> MAX_BACKOFF_MS"
  shows "MAX_BACKOFF_MS = 60000 \<and> INITIAL_BACKOFF_MS = 1000 \<and>
    (case failureRun key es ws of (ds, ws') \<Rightarrow>
       ds = backoffSeq b (length es)
     \<and> sorted ds
     \<and> (\<forall>d\<in>set ds. INITIAL_BACKOFF_MS \<le> d \<and> d \<le> MAX_BACKOFF_MS)
     \<and> (\<forall>i. Suc i < length ds \<longrightarrow> ds ! Suc i = min (ds ! i * 2) MAX_BACKOFF_MS)
     \<and> (\<forall>t c l mb. \<exists>st'. idleStates (reconnectTimerFired key t (Connected c l mb) ws') key = Some st'
            \<and> backoffMs st' = INITIAL_BACKOFF_MS)
     \<and> (\<forall>t c l mb es2.
            fst (failureRun key es2 (onClose key (reconnectTimerFired key t (Connected c l mb) ws')))
              = backoffSeq INITIAL_BACKOFF_MS (length es2)))
    \<and> fst (failureRun (name acc @ js '':'' @ fld) es (startIdle acc fld (ConnectError e0) ws0))
          = backoffSeq INITIAL_BACKOFF_MS (length es)"
proof -
  obtain ds ws' where run: "failureRun key es ws = (ds, ws')" by (cases "failureRun key es ws")
  have first: "fst (failureRun (name acc @ js '':'' @ fld) es (startIdle acc fld (ConnectError e0) ws0))
          = backoffSeq INITIAL_BACKOFF_MS (length es)"
    by (rule failureRun_delays[OF startIdle_failed])
       (simp_all add: INITIAL_BACKOFF_MS_def MAX_BACKOFF_MS_def)
  have b0: "0 \<le> b" using assms(4) by (simp add: INITIAL_BACKOFF_MS_def)
  have ds: "ds = backoffSeq b (length es)"
    using failureRun_delays[OF assms(1-3) b0 assms(5), of es] run by simp
  have len: "length ds = length es" unfolding ds by (simp add: backoffSeq_def)
  from failureRun_state[OF assms(1-3), of es] run
  obtain st1 where st1: "idleStates ws' key = Some st1" "\<not> stopped st1" by auto
  have reset: "\<exists>st'. idleStates (reconnectTimerFired key t (Connected c l mb) ws') key = Some st'
            \<and> backoffMs st' = INITIAL_BACKOFF_MS" for t c l mb
    using reconnect_ok_step[OF st1, of t c l mb] by simp
  have again: "fst (failureRun key es2 (onClose key (reconnectTimerFired key t (Connected c l mb) ws')))
              = backoffSeq INITIAL_BACKOFF_MS (length es2)" for t c l mb es2
  proof -
    let ?st2 = "st1\<lparr>backoffMs := INITIAL_BACKOFF_MS, client := Some c, lock := Some l,
                    lastSeenUid := resolveUidNext mb - 1\<rparr>"
    have s2: "idleStates (reconnectTimerFired key t (Connected c l mb) ws') key = Some ?st2"
      by (rule reconnect_ok_step[OF st1])
    have ns2: "\<not> stopped ?st2" using st1(2) by simp
    show ?thesis
      by (rule failureRun_delays[OF onClose_step[OF s2 ns2]])
         (use st1(2) in \<open>simp_all add: INITIAL_BACKOFF_MS_def MAX_BACKOFF_MS_def\<close>)
  qed
  show ?thesis
    unfolding run using first ds len reset again backoffSeq_sorted[OF b0, of "length es"]
      backoffSeq_bounds[OF assms(4), of _ "length es"] backoffSeq_doubles[OF b0, of _ "length es"]
    by (simp add: MAX_BACKOFF_MS_def INITIAL_BACKOFF_MS_def)
qed

lemma startIdle_failed_example:
  "idleStates (startIdle exampleAccount (js ''INBOX'') (ConnectError (js ''timeout'')) newWatcherService)
     exampleKey = Some exampleState"
  by (simp add: startIdle_def connectIdle_def scheduleReconnect_def updateState_def watcherLog_def
      newWatcherService_def exampleAccount_def exampleKey_def exampleState_def js_def Let_def
      INITIAL_BACKOFF_MS_def)

theorem reconnect_backoff_witness:
  "fst (failureRun exampleKey (replicate 8 (js ''timeout''))
      (startIdle exampleAccount (js ''INBOX'') (ConnectError (js ''timeout'')) newWatcherService))
   = [1000, 2000, 4000, 8000, 16000, 32000, 60000, 60000]"
proof -
  have h2: "\<not> stopped exampleState" by (simp add: exampleState_def)
  have h3: "reconnectTimer exampleState = Some (Timeout 1000 1000)" by (simp add: exampleState_def)
  have h4: "INITIAL_BACKOFF_MS \<le> 1000" by (simp add: INITIAL_BACKOFF_MS_def)
  have h5: "1000 \<le> MAX_BACKOFF_MS" by (simp add: MAX_BACKOFF_MS_def)
  have e: "backoffSeq 1000 8 = [1000, 2000, 4000, 8000, 16000, 32000, 60000, 60000]"
    by (simp add: backoffSeq_def MAX_BACKOFF_MS_def upt_rec)
  show ?thesis
    using reconnect_backoff[OF startIdle_failed_example h2 h3 h4 h5, of "replicate 8 (js ''timeout'')"
        exampleAccount "js ''INBOX''" "js ''timeout''" newWatcherService] e
    by (simp split: prod.splits)
qed

lemma exampleClosed_state:
  "idleStates exampleClosed exampleKey =
     Some \<lparr>client = None, account = exampleAccount, folder = js ''INBOX'', lastSeenUid = 41,
       lock = None, reconnectTimer = Some (Timeout 1000 1000), backoffMs = 1000, stopped = False\<rparr>"
  by (simp add: exampleClosed_def onClose_def startIdle_def connectIdle_def scheduleReconnect_def
      updateState_def watcherLog_def newWatcherService_def exampleAccount_def exampleKey_def js_def
      Let_def INITIAL_BACKOFF_MS_def resolveUidNext_def)

lemma exampleReconnected_state:
  "idleStates exampleReconnected exampleKey =
     Some \<lparr>client = Some (ImapFlow 2), account = exampleAccount, folder = js ''INBOX'', lastSeenUid = 0,
       lock = Some (MailboxLock 2), reconnectTimer = Some (Timeout 1000 1000), backoffMs = 1000,
       stopped = False\<rparr>"
  by (simp add: exampleReconnected_def reconnectTimerFired_def connectIdle_def updateState_def
      exampleClosed_state Let_def INITIAL_BACKOFF_MS_def MAX_BACKOFF_MS_def resolveUidNext_def)

text \<open>
  Claim C7, as stated, fails: a target connected when the next uid of the store was 42 has
  \<open>lastSeenUid = 41\<close>, and keeps it when the connection closes; the reconnect timer then
  connects a client whose \<open>mailbox\<close> is \<open>false\<close>, the source takes 1 for \<open>uidNext\<close>, and
  \<open>lastSeenUid\<close> is put to 0; at the next signal the summary of message 7, which is below
  the 42 of the first connect, is published.
\<close>

theorem connectIdle_without_uidNext:
  "map_option lastSeenUid (idleStates exampleClosed exampleKey) = Some 41
   \<and> map_option lastSeenUid (idleStates exampleReconnected exampleKey) = Some 0
   \<and> snd (handleNewEmails (on email_new announced newEventBus) exampleKey
             (js ''2026-01-01T00:00:00.000Z'') (FetchDone [exampleMessage 7]) (exampleReconnected, []))
       = [js ''7'']"
  by (simp add: exampleClosed_state exampleReconnected_state handleNewEmails_def afterLoop_def
      loopBody_def buildEmailMeta_def exampleMessage_def emit_def on_def newEventBus_def
      announced_def String_of_def js_def Let_def)

text \<open>
  Claim C7, amended. A successful connect of a live target, whether the first one
  (\<open>startIdle\<close>), a direct \<open>connectIdle\<close> or one made by the reconnect timer, sets \<open>lastSeenUid\<close>
  to the next uid resolved from the client's \<open>mailbox\<close> minus one, whatever \<open>lastSeenUid\<close> was
  before. The next uid resolved is the \<open>uidNext\<close> of the mailbox when it has one, so that
  \<open>lastSeenUid\<close> is then \<open>uidNext - 1\<close>; it is 1 when \<open>mailbox\<close> is \<open>false\<close> or has no \<open>uidNext\<close>,
  and \<open>lastSeenUid\<close> is then 0. A new-item signal after a reconnect whose fetch brings only
  messages below the next uid resolved publishes nothing and changes nothing.
\<close>

theorem connectIdle_lastSeenUid:
  assumes "idleStates ws key = Some st" and "\<not> stopped st"
  shows "(\<exists>st'. idleStates (connectIdle key (Connected c l mailbox) ws) key = Some st'
            \<and> lastSeenUid st' = resolveUidNext mailbox - 1)
       \<and> (\<exists>st'. idleStates (reconnectTimerFired key t (Connected c l mailbox) ws) key = Some st'
            \<and> lastSeenUid st' = resolveUidNext mailbox - 1)
       \<and> (\<exists>st'. idleStates (startIdle acc fld (Connected c l mailbox) ws) (name acc @ js '':'' @ fld) = Some st'
            \<and> lastSeenUid st' = resolveUidNext mailbox - 1)
       \<and> (\<forall>mb n. mailbox = Some mb \<and> uidNext mb = Some n \<longrightarrow> resolveUidNext mailbox = n)
       \<and> (mailbox = None \<or> (\<exists>mb. mailbox = Some mb \<and> uidNext mb = None) \<longrightarrow> resolveUidNext mailbox = 1)
       \<and> ((\<forall>m\<in>set msgs. uid m < resolveUidNext mailbox) \<longrightarrow>
            handleNewEmails bus key now (FetchDone msgs)
              (reconnectTimerFired key t (Connected c l mailbox) ws, s)
            = (reconnectTimerFired key t (Connected c l mailbox) ws, s))"
proof -
  let ?n = "resolveUidNext mailbox"
  have d: "handleNewEmails bus key now (FetchDone msgs)
              (reconnectTimerFired key t (Connected c l mailbox) ws, s)
            = (reconnectTimerFired key t (Connected c l mailbox) ws, s)"
    if "\<forall>m\<in>set msgs. uid m < ?n"
  proof -
    have "\<forall>m\<in>set msgs. uid m \<le> ?n - 1" using that by auto
    then have "fetchLoop (?n - 1) now msgs ([], ?n - 1) = Inr ([], ?n - 1)" by (rule fetchLoop_none)
    then show ?thesis
      using reconnect_ok_step[OF assms(1,2), of t c l mailbox]
      by (simp add: handleNewEmails_def afterLoop_def)
  qed
  have a: "\<exists>st'. idleStates (connectIdle key (Connected c l mailbox) ws) key = Some st'
            \<and> lastSeenUid st' = ?n - 1"
    using connectIdle_ok_step[OF assms(1,2), of c l mailbox] by simp
  have b: "\<exists>st'. idleStates (reconnectTimerFired key t (Connected c l mailbox) ws) key = Some st'
            \<and> lastSeenUid st' = ?n - 1"
    using reconnect_ok_step[OF assms(1,2), of t c l mailbox] by simp
  have c: "\<exists>st'. idleStates (startIdle acc fld (Connected c l mailbox) ws) (name acc @ js '':'' @ fld) = Some st'
            \<and> lastSeenUid st' = ?n - 1"
    by (simp add: startIdle_def connectIdle_def idleStates_updateState Let_def)
  have e: "\<forall>mb n. mailbox = Some mb \<and> uidNext mb = Some n \<longrightarrow> ?n = n"
    by (auto simp: resolveUidNext_def)
  have f: "mailbox = None \<or> (\<exists>mb. mailbox = Some mb \<and> uidNext mb = None) \<longrightarrow> ?n = 1"
    by (auto simp: resolveUidNext_def)
  show ?thesis using a b c d e f by blast
qed

theorem connectIdle_lastSeenUid_witness:
  "(\<exists>st'. idleStates (reconnectTimerFired exampleKey (Timeout 1000 1000)
            (Connected (ImapFlow 2) (MailboxLock 2) (Some \<lparr>uidNext = Some 42\<rparr>))
            (startIdle exampleAccount (js ''INBOX'') (ConnectError (js ''timeout'')) newWatcherService))
          exampleKey = Some st' \<and> lastSeenUid st' = 41)
   \<and> handleNewEmails newEventBus exampleKey (js ''2026-01-01T00:00:00.000Z'')
         (FetchDone [exampleMessage 7, exampleMessage 41])
         (reconnectTimerFired exampleKey (Timeout 1000 1000)
            (Connected (ImapFlow 2) (MailboxLock 2) (Some \<lparr>uidNext = Some 42\<rparr>))
            (startIdle exampleAccount (js ''INBOX'') (ConnectError (js ''timeout'')) newWatcherService), ())
       = (reconnectTimerFired exampleKey (Timeout 1000 1000)
            (Connected (ImapFlow 2) (MailboxLock 2) (Some \<lparr>uidNext = Some 42\<rparr>))
            (startIdle exampleAccount (js ''INBOX'') (ConnectError (js ''timeout'')) newWatcherService), ())"
proof -
  have h2: "\<not> stopped exampleState" by (simp add: exampleState_def)
  have r: "resolveUidNext (Some \<lparr>uidNext = Some 42\<rparr>) = 42" by (simp add: resolveUidNext_def)
  show ?thesis
    using connectIdle_lastSeenUid[OF startIdle_failed_example h2,
        where c = "ImapFlow 2" and l = "MailboxLock 2" and t = "Timeout 1000 1000"
          and mailbox = "Some \<lparr>uidNext = Some 42\<rparr>"
          and acc = exampleAccount and fld = "js ''INBOX''"
          and msgs = "[exampleMessage 7, exampleMessage 41]" and bus = newEventBus
          and now = "js ''2026-01-01T00:00:00.000Z''" and s = "()"]
    by (simp add: exampleMessage_def r)
qed





section \<open>Properties of the notifier\<close>

lemma alert_exec:
  "list_ex isExec (fst (alert env payload force ns)) \<longleftrightarrow>
     (desktop (config ns)
      \<and> (URGENCY_ORDER (priority payload) \<ge> URGENCY_ORDER (urgencyThreshold (config ns)) \<or> force)
      \<and> desktopCount ns < MAX_DESKTOP_PER_MIN
      \<and> env_platform env \<noteq> otherPlatform)"
  by (cases "env_platform env"; cases "webhookDoes env")
     (auto simp: alert_def sendDesktopNotification_def sendWebhook_def Let_def)

lemma alert_count:
  "desktopCount (snd (alert env payload force ns)) =
     (if desktop (config ns)
        \<and> (URGENCY_ORDER (priority payload) \<ge> URGENCY_ORDER (urgencyThreshold (config ns)) \<or> force)
        \<and> desktopCount ns < MAX_DESKTOP_PER_MIN
      then desktopCount ns + 1 else desktopCount ns)"
  by (cases "env_platform env")
     (auto simp: alert_def sendDesktopNotification_def Let_def)

lemma alert_config: "config (snd (alert env payload force ns)) = config ns"
  by (cases "env_platform env")
     (auto simp: alert_def sendDesktopNotification_def Let_def)

lemma alert_execs:
  "env_platform env \<noteq> otherPlatform \<Longrightarrow>
   desktopCount (snd (alert env payload force ns)) =
     desktopCount ns + length (filter isExec (fst (alert env payload force ns)))"
  by (cases "env_platform env"; cases "webhookDoes env")
     (auto simp: alert_def sendDesktopNotification_def sendWebhook_def Let_def)

lemma runNotifier_count:
  assumes "list_all onSupportedPlatform es" and "desktopCount ns = n"
  shows "desktopCount (snd (runNotifier es (n, ns))) = fst (runNotifier es (n, ns))
       \<and> config (snd (runNotifier es (n, ns))) = config ns"
  using assms
proof (induction es arbitrary: n ns)
  case Nil
  then show ?case by simp
next
  case (Cons ev es)
  show ?case
  proof (cases ev)
    case (AlertCall env payload force)
    obtain eff ns' where a: "alert env payload force ns = (eff, ns')"
      by (cases "alert env payload force ns")
    have sup: "env_platform env \<noteq> otherPlatform" using Cons.prems(1) AlertCall by simp
    have c: "desktopCount ns' = n + length (filter isExec eff)"
      using alert_execs[OF sup, of payload force ns] a Cons.prems(2) by simp
    have cfg: "config ns' = config ns" using alert_config[of env payload force ns] a by simp
    have rest: "list_all onSupportedPlatform es" using Cons.prems(1) by simp
    from Cons.IH[OF rest c] show ?thesis using AlertCall a cfg by simp
  next
    case ResetInterval
    have rest: "list_all onSupportedPlatform es" using Cons.prems(1) by simp
    have c: "desktopCount (desktopResetFired ns) = 0" by (simp add: desktopResetFired_def)
    from Cons.IH[OF rest c] show ?thesis using ResetInterval by (simp add: desktopResetFired_def)
  qed
qed

text \<open>
  Claim C6. An alert performs a desktop send, which the per-minute counter records, exactly
  when desktop notifications are enabled, the priority is at least the threshold in the order
  \<open>urgent > high > normal > low\<close> or the caller forces it, and the counter is below 5. On
  \<open>darwin\<close>, \<open>linux\<close> and \<open>win32\<close> that is exactly when the notification command is run; on any
  other platform no command exists. After any history of alerts and 60-second resets since
  the constructor, the counter is the number of commands run since the last reset.
\<close>

theorem alert_desktop_channel:
  "(desktopCount (snd (alert env payload force ns)) = desktopCount ns + 1 \<longleftrightarrow>
      desktop (config ns)
      \<and> (URGENCY_ORDER (priority payload) \<ge> URGENCY_ORDER (urgencyThreshold (config ns)) \<or> force)
      \<and> desktopCount ns < 5)
   \<and> (env_platform env \<noteq> otherPlatform \<longrightarrow>
        (list_ex isExec (fst (alert env payload force ns)) \<longleftrightarrow>
           desktop (config ns)
           \<and> (URGENCY_ORDER (priority payload) \<ge> URGENCY_ORDER (urgencyThreshold (config ns)) \<or> force)
           \<and> desktopCount ns < 5))
   \<and> (env_platform env = otherPlatform \<longrightarrow> \<not> list_ex isExec (fst (alert env payload force ns)))
   \<and> (list_all onSupportedPlatform es \<and> runNotifier es (0, newNotifierService cfg) = (sent, ns)
        \<longrightarrow> desktopCount ns = sent \<and> config ns = cfg)
   \<and> URGENCY_ORDER urgent > URGENCY_ORDER high \<and> URGENCY_ORDER high > URGENCY_ORDER normal
   \<and> URGENCY_ORDER normal > URGENCY_ORDER low \<and> inj URGENCY_ORDER"
proof -
  have tr: "desktopCount ns = sent \<and> config ns = cfg"
    if "list_all onSupportedPlatform es" "runNotifier es (0, newNotifierService cfg) = (sent, ns)"
    using runNotifier_count[OF that(1), of "newNotifierService cfg" 0] that(2)
    by (simp add: newNotifierService_def)
  have a: "desktopCount (snd (alert env payload force ns)) = desktopCount ns + 1 \<longleftrightarrow>
      desktop (config ns)
      \<and> (URGENCY_ORDER (priority payload) \<ge> URGENCY_ORDER (urgencyThreshold (config ns)) \<or> force)
      \<and> desktopCount ns < 5"
    unfolding alert_count by (simp add: MAX_DESKTOP_PER_MIN_def)
  have b: "list_ex isExec (fst (alert env payload force ns)) \<longleftrightarrow>
           desktop (config ns)
           \<and> (URGENCY_ORDER (priority payload) \<ge> URGENCY_ORDER (urgencyThreshold (config ns)) \<or> force)
           \<and> desktopCount ns < 5" if "env_platform env \<noteq> otherPlatform"
    unfolding alert_exec using that by (simp add: MAX_DESKTOP_PER_MIN_def)
  have c: "\<not> list_ex isExec (fst (alert env payload force ns))" if "env_platform env = otherPlatform"
    unfolding alert_exec using that by simp
  have i: "inj URGENCY_ORDER"
  proof (rule injI)
    fix x y assume "URGENCY_ORDER x = URGENCY_ORDER y"
    then show "x = y" by (cases x; cases y) simp_all
  qed
  show ?thesis using tr a b c i by simp
qed

theorem alert_desktop_channel_witness:
  "list_ex isExec (fst (alert exampleEnv (examplePayload high) False
      (snd (runNotifier (replicate 4 (AlertCall exampleEnv (examplePayload urgent) False))
         (0, newNotifierService exampleAlerts)))))
   \<and> \<not> list_ex isExec (fst (alert exampleEnv (examplePayload normal) False
      (snd (runNotifier (replicate 4 (AlertCall exampleEnv (examplePayload urgent) False))
         (0, newNotifierService exampleAlerts)))))
   \<and> \<not> list_ex isExec (fst (alert exampleEnv (examplePayload high) False
      (snd (runNotifier (replicate 5 (AlertCall exampleEnv (examplePayload urgent) False))
         (0, newNotifierService exampleAlerts)))))"
proof -
  let ?run = "\<lambda>n. runNotifier (replicate n (AlertCall exampleEnv (examplePayload urgent) False))
         (0, newNotifierService exampleAlerts)"
  have h1: "list_all onSupportedPlatform (replicate n (AlertCall exampleEnv (examplePayload urgent) False))" for n
    by (induction n) (simp_all add: exampleEnv_def)
  have h2: "env_platform exampleEnv \<noteq> otherPlatform" by (simp add: exampleEnv_def)
  have r4: "fst (?run 4) = 4"
    by (simp add: numeral_eq_Suc alert_def sendDesktopNotification_def exampleEnv_def examplePayload_def
        exampleAlerts_def newNotifierService_def MAX_DESKTOP_PER_MIN_def Let_def)
  have r5: "fst (?run 5) = 5"
    by (simp add: numeral_eq_Suc alert_def sendDesktopNotification_def exampleEnv_def examplePayload_def
        exampleAlerts_def newNotifierService_def MAX_DESKTOP_PER_MIN_def Let_def)
  have s4: "?run 4 = (4, snd (?run 4))" using r4 by (metis surjective_pairing)
  have s5: "?run 5 = (5, snd (?run 5))" using r5 by (metis surjective_pairing)
  show ?thesis
    using alert_desktop_channel[where env = exampleEnv and payload = "examplePayload high" and force = False
        and ns = "snd (?run 4)" and es = "replicate 4 (AlertCall exampleEnv (examplePayload urgent) False)"
        and cfg = exampleAlerts and sent = 4]
      alert_desktop_channel[where env = exampleEnv and payload = "examplePayload normal" and force = False
        and ns = "snd (?run 4)" and es = "replicate 4 (AlertCall exampleEnv (examplePayload urgent) False)"
        and cfg = exampleAlerts and sent = 4]
      alert_desktop_channel[where env = exampleEnv and payload = "examplePayload high" and force = False
        and ns = "snd (?run 5)" and es = "replicate 5 (AlertCall exampleEnv (examplePayload urgent) False)"
        and cfg = exampleAlerts and sent = 5]
      h1[of 4] h1[of 5] h2 s4 s5
    by (simp add: exampleAlerts_def examplePayload_def)
qed

section \<open>Properties of the triage response parser\<close>

lemma stringsOf_map_JString [simp]: "stringsOf (map JString ls) = ls"
  by (induction ls) simp_all

lemma stringsOf_sound: "s \<in> set (stringsOf vs) \<Longrightarrow> JString s \<in> set vs"
  by (induction vs rule: stringsOf.induct) auto

lemma knownLevel_levelName [simp]: "knownLevel (JString (levelName p)) = Some p"
  by (cases p) (simp_all add: js_def)

lemma knownLevel_sound: "knownLevel v = Some p \<Longrightarrow> v = JString (levelName p)"
  by (cases v) (auto split: if_splits)

lemma getProp_triageValue:
  "getProp (triageValue t) (js ''priority'') =
     (case tr_priority t of None \<Rightarrow> JUndefined | Some p \<Rightarrow> JString (levelName p))"
  "getProp (triageValue t) (js ''labels'') =
     (case labels t of None \<Rightarrow> JUndefined | Some ls \<Rightarrow> JArray (map JString ls))"
  "getProp (triageValue t) (js ''flag'') =
     (case flag t of None \<Rightarrow> JUndefined | Some b \<Rightarrow> JBool b)"
  "getProp (triageValue t) (js ''action'') =
     (case action t of None \<Rightarrow> JUndefined | Some a \<Rightarrow> JString a)"
  by (simp_all add: triageValue_def js_def)

lemma sanitize_triageValue:
  assumes "validTriageResult t"
  shows "sanitizeTriageResult (triageValue t) = t"
proof -
  have o: "isObjectValue (triageValue t)" by (simp add: triageValue_def)
  have u: "knownLevel JUndefined = None" by simp
  have "tr_priority (sanitizeTriageResult (triageValue t)) = tr_priority t"
    using o by (cases "tr_priority t")
      (simp_all del: knownLevel.simps add: sanitizeTriageResult_def getProp_triageValue u)
  moreover have "labels (sanitizeTriageResult (triageValue t)) = labels t"
    using o assms
    by (simp add: sanitizeTriageResult_def getProp_triageValue validTriageResult_def split: option.splits)
  moreover have "flag (sanitizeTriageResult (triageValue t)) = flag t"
    using o by (simp add: sanitizeTriageResult_def getProp_triageValue split: option.splits)
  moreover have "action (sanitizeTriageResult (triageValue t)) = action t"
    using o assms
    by (simp add: sanitizeTriageResult_def getProp_triageValue validTriageResult_def split: option.splits)
  ultimately show ?thesis by simp
qed

lemma sanitize_valid: "validTriageResult (sanitizeTriageResult raw)"
  by (simp add: sanitizeTriageResult_def validTriageResult_def emptyTriageResult_def
      split: jsvalue.splits)

lemma empty_valid: "validTriageResult emptyTriageResult"
  by (simp add: validTriageResult_def emptyTriageResult_def)

text \<open>
  Claim C9. \<open>sanitizeTriageResult\<close> is idempotent: applied to its own result (seen again as
  a value) it gives that result. For every raw value, the labels of the result, when present,
  are at most 5 and each is a string of the raw \<open>labels\<close> array; the action, when present,
  is the first 200 code units at most of the raw string; the priority, when present, is the
  raw string and one of the four levels; the flag, when present, is the raw boolean.
\<close>

theorem sanitizeTriageResult_idempotent:
  "sanitizeTriageResult (triageValue (sanitizeTriageResult raw)) = sanitizeTriageResult raw
   \<and> (case labels (sanitizeTriageResult raw) of
         None \<Rightarrow> True
       | Some ls \<Rightarrow> length ls \<le> 5
           \<and> (\<exists>vs. getProp raw (js ''labels'') = JArray vs \<and> ls = take 5 (stringsOf vs)
                \<and> set ls \<subseteq> {s. JString s \<in> set vs}))
   \<and> (case action (sanitizeTriageResult raw) of
         None \<Rightarrow> True
       | Some a \<Rightarrow> length a \<le> 200 \<and> (\<exists>s. getProp raw (js ''action'') = JString s \<and> a = take 200 s))
   \<and> (case tr_priority (sanitizeTriageResult raw) of
         None \<Rightarrow> True
       | Some p \<Rightarrow> getProp raw (js ''priority'') = JString (levelName p)
           \<and> levelName p \<in> {js ''urgent'', js ''high'', js ''normal'', js ''low''})
   \<and> (case flag (sanitizeTriageResult raw) of
         None \<Rightarrow> True
       | Some b \<Rightarrow> getProp raw (js ''flag'') = JBool b)"
proof -
  have idem: "sanitizeTriageResult (triageValue (sanitizeTriageResult raw)) = sanitizeTriageResult raw"
    by (rule sanitize_triageValue[OF sanitize_valid])
  have l: "case labels (sanitizeTriageResult raw) of
         None \<Rightarrow> True
       | Some ls \<Rightarrow> length ls \<le> 5
           \<and> (\<exists>vs. getProp raw (js ''labels'') = JArray vs \<and> ls = take 5 (stringsOf vs)
                \<and> set ls \<subseteq> {s. JString s \<in> set vs})"
    by (auto simp: sanitizeTriageResult_def emptyTriageResult_def
        split: option.splits jsvalue.splits dest!: in_set_takeD stringsOf_sound)
  have a: "case action (sanitizeTriageResult raw) of
         None \<Rightarrow> True
       | Some a \<Rightarrow> length a \<le> 200 \<and> (\<exists>s. getProp raw (js ''action'') = JString s \<and> a = take 200 s)"
    by (auto simp: sanitizeTriageResult_def emptyTriageResult_def split: option.splits jsvalue.splits)
  have p: "case tr_priority (sanitizeTriageResult raw) of
         None \<Rightarrow> True
       | Some p \<Rightarrow> getProp raw (js ''priority'') = JString (levelName p)
           \<and> levelName p \<in> {js ''urgent'', js ''high'', js ''normal'', js ''low''}"
  proof (cases "tr_priority (sanitizeTriageResult raw)")
    case None
    then show ?thesis by simp
  next
    case (Some lv)
    then have "knownLevel (getProp raw (js ''priority'')) = Some lv"
      by (auto simp: sanitizeTriageResult_def emptyTriageResult_def split: if_splits)
    then have "getProp raw (js ''priority'') = JString (levelName lv)" by (rule knownLevel_sound)
    moreover have "levelName lv \<in> {js ''urgent'', js ''high'', js ''normal'', js ''low''}"
      by (cases lv) simp_all
    ultimately show ?thesis using Some by simp
  qed
  have f: "case flag (sanitizeTriageResult raw) of
         None \<Rightarrow> True
       | Some b \<Rightarrow> getProp raw (js ''flag'') = JBool b"
    by (auto simp: sanitizeTriageResult_def emptyTriageResult_def split: option.splits jsvalue.splits)
  show ?thesis using idem l a p f by blast
qed

theorem sanitizeTriageResult_idempotent_witness:
  "sanitizeTriageResult exampleRaw =
     \<lparr>tr_priority = Some urgent, labels = Some [js ''a'', js ''b'', js ''c'', js ''d'', js ''e''],
      flag = None, action = Some (replicate 200 0x78)\<rparr>
   \<and> sanitizeTriageResult (triageValue (sanitizeTriageResult exampleRaw)) =
     \<lparr>tr_priority = Some urgent, labels = Some [js ''a'', js ''b'', js ''c'', js ''d'', js ''e''],
      flag = None, action = Some (replicate 200 0x78)\<rparr>"
proof -
  have e: "sanitizeTriageResult exampleRaw =
     \<lparr>tr_priority = Some urgent, labels = Some [js ''a'', js ''b'', js ''c'', js ''d'', js ''e''],
      flag = None, action = Some (replicate 200 0x78)\<rparr>"
    by (simp add: sanitizeTriageResult_def exampleRaw_def js_def)
  show ?thesis
    using sanitizeTriageResult_idempotent[of exampleRaw] unfolding e by simp
qed

lemma parse_cases:
  "parseTriageResponse text n =
     (case JSON_parse (trim (stripFences text)) of
        Some (JArray parsed) \<Rightarrow> map sanitizeTriageResult (take n parsed)
      | Some (JObject ms) \<Rightarrow> [sanitizeTriageResult (JObject ms)]
      | _ \<Rightarrow> replicate n emptyTriageResult)"
  by (simp add: parseTriageResponse_def)

lemma resultAt_valid: "\<forall>t\<in>set results. validTriageResult t \<Longrightarrow> validTriageResult (resultAt results i)"
  by (simp add: resultAt_def empty_valid)

lemma applySingleTriage_one_summary:
  "length (filter isTriageLine (applySingleTriage env hs e t)) = 1"
  by (simp add: applySingleTriage_def Let_def filter_map o_def split: option.splits)

lemma applyTriageResults_summaries:
  "length (filter isTriageLine (applyTriageResults env hs ems results)) = length ems"
proof -
  have "length (filter isTriageLine (concat (map f xs))) = length xs"
    if "\<And>x. length (filter isTriageLine (f x)) = 1" for f :: "nat \<Rightarrow> hooksEffect list" and xs
    using that by (induction xs) simp_all
  then show ?thesis
    unfolding applyTriageResults_def using applySingleTriage_one_summary by simp
qed

text \<open>
  Claim C1, as stated, fails: the response \<open>[{}]\<close> for a batch of two messages gives one
  result, not two.
\<close>

theorem parseTriageResponse_short:
  "parseTriageResponse (js ''[{}]'') 2 = [emptyTriageResult]
   \<and> length (parseTriageResponse (js ''[{}]'') 2) \<noteq> 2"
  by (simp add: parseTriageResponse_def JSON_parse_def js_def isJsonSpace_def trim_def isWhiteSpace_def
      sanitizeTriageResult_def emptyTriageResult_def)

text \<open>
  Claim C1, amended. \<open>parseTriageResponse\<close> returns for every text and every
  \<open>expectedCount\<close> a list of valid results: exactly \<open>expectedCount\<close> empty results when the
  cleaned text is not JSON or is JSON that is neither an array nor an object; the sanitized
  first elements of an array, as many as the array has and \<open>expectedCount\<close> at most; one
  result for an object. A list shorter than the batch is not padded here: \<open>results[i] ?? {}\<close>
  in \<open>applyTriageResults\<close> reads an empty result at every position the list does not have,
  so that every message of the batch gets its summary line whatever the response was.
\<close>

theorem parseTriageResponse_results:
  "(\<forall>t\<in>set (parseTriageResponse text n). validTriageResult t)
   \<and> (case JSON_parse (trim (stripFences text)) of
        Some (JArray parsed) \<Rightarrow>
          parseTriageResponse text n = map sanitizeTriageResult (take n parsed)
          \<and> length (parseTriageResponse text n) = min n (length parsed)
      | Some (JObject ms) \<Rightarrow> parseTriageResponse text n = [sanitizeTriageResult (JObject ms)]
      | _ \<Rightarrow> parseTriageResponse text n = replicate n emptyTriageResult)
   \<and> (\<forall>i. validTriageResult (resultAt (parseTriageResponse text n) i)
          \<and> (length (parseTriageResponse text n) \<le> i
               \<longrightarrow> resultAt (parseTriageResponse text n) i = emptyTriageResult)
          \<and> (i < length (parseTriageResponse text n)
               \<longrightarrow> resultAt (parseTriageResponse text n) i = parseTriageResponse text n ! i))
   \<and> length (filter isTriageLine
         (applyTriageResults env hs ems (parseTriageResponse text (length ems)))) = length ems"
proof -
  have v: "\<forall>t\<in>set (parseTriageResponse text n). validTriageResult t"
    unfolding parse_cases
    by (auto simp: sanitize_valid empty_valid split: option.splits jsvalue.splits)
  have c: "case JSON_parse (trim (stripFences text)) of
        Some (JArray parsed) \<Rightarrow>
          parseTriageResponse text n = map sanitizeTriageResult (take n parsed)
          \<and> length (parseTriageResponse text n) = min n (length parsed)
      | Some (JObject ms) \<Rightarrow> parseTriageResponse text n = [sanitizeTriageResult (JObject ms)]
      | _ \<Rightarrow> parseTriageResponse text n = replicate n emptyTriageResult"
    unfolding parse_cases by (simp add: min.commute split: option.splits jsvalue.splits)
  have r: "validTriageResult (resultAt (parseTriageResponse text n) i)
          \<and> (length (parseTriageResponse text n) \<le> i
               \<longrightarrow> resultAt (parseTriageResponse text n) i = emptyTriageResult)
          \<and> (i < length (parseTriageResponse text n)
               \<longrightarrow> resultAt (parseTriageResponse text n) i = parseTriageResponse text n ! i)" for i
    using resultAt_valid[OF v, of i] by (simp add: resultAt_def)
  show ?thesis using v c r applyTriageResults_summaries by blast
qed

theorem parseTriageResponse_results_witness:
  "parseTriageResponse (js ''{}'') 3 = [emptyTriageResult]
   \<and> resultAt (parseTriageResponse (js ''{}'') 3) 0 = emptyTriageResult
   \<and> resultAt (parseTriageResponse (js ''{}'') 3) 2 = emptyTriageResult
   \<and> parseTriageResponse (js ''not json'') 3 = [emptyTriageResult, emptyTriageResult, emptyTriageResult]"
proof -
  have p: "JSON_parse (trim (stripFences (js ''{}''))) = Some (JObject [])"
    by (simp add: JSON_parse_def js_def isJsonSpace_def trim_def isWhiteSpace_def)
  have q: "JSON_parse (trim (stripFences (js ''not json''))) = None"
    by (simp add: JSON_parse_def js_def isJsonSpace_def trim_def isWhiteSpace_def isDigit_def)
  have s: "sanitizeTriageResult (JObject []) = emptyTriageResult"
    by (simp add: sanitizeTriageResult_def emptyTriageResult_def)
  show ?thesis
    using parseTriageResponse_results[of "js ''{}''" 3] parseTriageResponse_results[of "js ''not json''" 3]
    unfolding p q by (simp add: s resultAt_def numeral_eq_Suc)
qed

section \<open>Properties of the hooks service\<close>

lemma notifyBatch_filters:
  "filter isNotification (notifyBatch b) = notifyBatch b"
  "filter isMutation (notifyBatch b) = []"
  "filter isCreateMessage (notifyBatch b) = []"
  "length (notifyBatch b) = length b"
  by (induction b) (simp_all add: notifyBatch_def)

lemma sendResourceUpdates_filters:
  "filter isNotification (sendResourceUpdates b hs) = []"
  "filter isMutation (sendResourceUpdates b hs) = []"
  "filter isCreateMessage (sendResourceUpdates b hs) = []"
proof -
  have n: "filter isNotification (concat (map (\<lambda>a. [SendResourceUpdated (f a), SendResourceUpdated (g a)]) xs)) = []"
    for f g :: "jsstring \<Rightarrow> jsstring" and xs by (induction xs) simp_all
  have m: "filter isMutation (concat (map (\<lambda>a. [SendResourceUpdated (f a), SendResourceUpdated (g a)]) xs)) = []"
    for f g :: "jsstring \<Rightarrow> jsstring" and xs by (induction xs) simp_all
  have c: "filter isCreateMessage (concat (map (\<lambda>a. [SendResourceUpdated (f a), SendResourceUpdated (g a)]) xs)) = []"
    for f g :: "jsstring \<Rightarrow> jsstring" and xs by (induction xs) simp_all
  show "filter isNotification (sendResourceUpdates b hs) = []"
    "filter isMutation (sendResourceUpdates b hs) = []"
    "filter isCreateMessage (sendResourceUpdates b hs) = []"
    unfolding sendResourceUpdates_def by (simp_all add: n m c split: option.splits)
qed

text \<open>
  Claim C8. In triage mode with sampling negotiated and the counter of the window at 10 or
  more, the flush of a batch falls back to plain notification: \<open>triageBatch\<close> logs the
  fallback and the notification lines, the notification lines of the flush are those of
  \<open>notifyBatch\<close>, one per message of the batch, no label or flag mutation is made, no
  sampling request is made, and the service, its counter included, is unchanged.
\<close>

theorem triage_rate_limit_fallback:
  assumes "onNewEmail_cfg (hooksConfig hs) = triage" and "samplingSupported hs"
    and "rateCounter hs \<ge> MAX_SAMPLING_PER_MIN"
  shows "MAX_SAMPLING_PER_MIN = 10
     \<and> triageBatch env batch hs = (HLog (LogWarning, hooks, RateLimitFallback) # notifyBatch batch, hs)
     \<and> (case flushBatch_async env batch hs of
          (eff, hs') \<Rightarrow>
            hs' = hs
          \<and> filter isNotification eff = notifyBatch batch
          \<and> length (filter isNotification eff) = length batch
          \<and> filter isMutation eff = []
          \<and> filter isCreateMessage eff = []
          \<and> (batch \<noteq> [] \<longrightarrow>
               eff = sendResourceUpdates batch hs
                       @ HLog (LogWarning, hooks, RateLimitFallback) # notifyBatch batch))"
proof -
  have t: "triageBatch env batch hs = (HLog (LogWarning, hooks, RateLimitFallback) # notifyBatch batch, hs)"
    using assms(3) by (simp add: triageBatch_def)
  show ?thesis
  proof (cases "batch = []")
    case True
    then show ?thesis using t by (simp add: flushBatch_async_def notifyBatch_def MAX_SAMPLING_PER_MIN_def)
  next
    case False
    then have "flushBatch_async env batch hs =
        (sendResourceUpdates batch hs @ HLog (LogWarning, hooks, RateLimitFallback) # notifyBatch batch, hs)"
      using assms(1,2) t by (simp add: flushBatch_async_def)
    then show ?thesis using t
      by (simp add: notifyBatch_filters sendResourceUpdates_filters MAX_SAMPLING_PER_MIN_def)
  qed
qed

theorem triage_rate_limit_fallback_witness:
  "length (filter isNotification (fst (flushBatch_async exampleFlushEnv exampleBatch exampleHooks))) = 4
   \<and> filter isMutation (fst (flushBatch_async exampleFlushEnv exampleBatch exampleHooks)) = []
   \<and> filter isCreateMessage (fst (flushBatch_async exampleFlushEnv exampleBatch exampleHooks)) = []
   \<and> rateCounter (snd (flushBatch_async exampleFlushEnv exampleBatch exampleHooks)) = 10"
proof -
  have h1: "onNewEmail_cfg (hooksConfig exampleHooks) = triage" by (simp add: exampleHooks_def)
  have h2: "samplingSupported exampleHooks" by (simp add: exampleHooks_def)
  have h3: "rateCounter exampleHooks \<ge> MAX_SAMPLING_PER_MIN"
    by (simp add: exampleHooks_def MAX_SAMPLING_PER_MIN_def)
  have l: "length exampleBatch = 4" by (simp add: exampleBatch_def)
  have r: "rateCounter exampleHooks = 10" by (simp add: exampleHooks_def)
  show ?thesis
    using triage_rate_limit_fallback[OF h1 h2 h3, of exampleFlushEnv exampleBatch] l r
    by (auto split: prod.splits)
qed

lemma applySingleTriage_config:
  "hooksConfig hs = hooksConfig hs' \<Longrightarrow> applySingleTriage env hs = applySingleTriage env hs'"
  by (intro ext) (simp add: applySingleTriage_def)

lemma applyTriageResults_config:
  "hooksConfig hs = hooksConfig hs' \<Longrightarrow> applyTriageResults env hs = applyTriageResults env hs'"
  by (intro ext) (simp add: applyTriageResults_def applySingleTriage_config[of hs hs'])

lemma onNewEmail_fields [simp]:
  "hooksConfig (onNewEmail ev hs) = hooksConfig hs"
  "lowLevelServer (onNewEmail ev hs) = lowLevelServer hs"
  "samplingSupported (onNewEmail ev hs) = samplingSupported hs"
  "rateCounter (onNewEmail ev hs) = rateCounter hs"
  "pendingEmails (onNewEmail ev hs) = pendingEmails hs @ arrived [Arrival ev]"
  "batchTimer (onNewEmail ev hs) \<noteq> None"
  by (simp_all add: onNewEmail_def Let_def split: option.splits)

lemma onNewEmail_rateCounter:
  "onNewEmail ev (hs\<lparr>rateCounter := n\<rparr>) = (onNewEmail ev hs)\<lparr>rateCounter := n\<rparr>"
  by (rule HooksService.equality) (simp_all add: onNewEmail_def Let_def split: option.splits)

lemma sendResourceUpdates_arrival:
  "sendResourceUpdates b (onNewEmail ev hs) = sendResourceUpdates b hs"
  by (simp add: sendResourceUpdates_def)

lemma triageBatch_arrival:
  "triageBatch env b (onNewEmail ev hs) =
     (fst (triageBatch env b hs), onNewEmail ev (snd (triageBatch env b hs)))"
proof -
  have a: "applyTriageResults env ((onNewEmail ev hs)\<lparr>rateCounter := n\<rparr>) =
           applyTriageResults env (hs\<lparr>rateCounter := n\<rparr>)" for n
    by (rule applyTriageResults_config) simp
  show ?thesis
    by (simp add: triageBatch_def Let_def a onNewEmail_rateCounter
        split: option.splits samplingOutcome.splits)
qed

lemma flushBatch_async_arrival:
  "flushBatch_async env b (onNewEmail ev hs) =
     (fst (flushBatch_async env b hs), onNewEmail ev (snd (flushBatch_async env b hs)))"
  by (simp add: flushBatch_async_def Let_def sendResourceUpdates_arrival triageBatch_arrival
      split: prod.splits)

lemma triageBatch_pending:
  "pendingEmails (snd (triageBatch env b hs)) = pendingEmails hs
   \<and> batchTimer (snd (triageBatch env b hs)) = batchTimer hs"
  by (simp add: triageBatch_def Let_def split: option.splits samplingOutcome.splits)

lemma flushBatch_async_pending:
  "pendingEmails (snd (flushBatch_async env b hs)) = pendingEmails hs
   \<and> batchTimer (snd (flushBatch_async env b hs)) = batchTimer hs"
  using triageBatch_pending[of env b hs]
  by (auto simp: flushBatch_async_def Let_def split: prod.splits)

lemma engineStep_heldBy: "heldBy (engineStep ev e) = heldBy e @ arrived [ev]"
proof (cases ev)
  case (Arrival event)
  then show ?thesis by (simp add: heldBy_def)
next
  case BatchTimerFired
  then show ?thesis by (simp add: heldBy_def flushBatch_sync_def split: option.splits)
next
  case (FlushResumed env)
  show ?thesis
  proof (cases "inFlight e")
    case Nil
    then show ?thesis using FlushResumed by simp
  next
    case (Cons b rest)
    then show ?thesis using FlushResumed flushBatch_async_pending[of env b "service e"]
      by (auto simp: heldBy_def split: prod.splits)
  qed
qed

lemma arrived_append: "arrived (xs @ ys) = arrived xs @ arrived ys"
  by (induction xs rule: arrived.induct) simp_all

lemma runEngine_heldBy: "heldBy (runEngine evs e) = heldBy e @ arrived evs"
proof (induction evs arbitrary: e)
  case Nil
  then show ?case by (simp add: runEngine_def)
next
  case (Cons ev evs)
  have "runEngine (ev # evs) e = runEngine evs (engineStep ev e)" by (simp add: runEngine_def)
  then show ?case
    using Cons.IH[of "engineStep ev e"] engineStep_heldBy[of ev e] arrived_append[of "[ev]" evs]
    by simp
qed

text \<open>
  Claim C5. The synchronous part of a flush takes the pending batch and leaves the pending
  batch empty and the timer cleared, before the rest of the flush runs. A message event that
  arrives after it lands in the pending batch, sets a new timer and is the batch of the next
  flush; the rest of the running flush does with its own batch what it would have done
  without the arrival. A flush of an empty batch has no effect. Over any history of arrivals,
  timer firings and resumed flushes, the batches flushed, then those in flight, then the
  pending batch are together the messages that arrived, each once and in order.
\<close>

theorem flushBatch_clears_before_async:
  "(case flushBatch_sync hs of
      (batch, hs1) \<Rightarrow>
        batch = pendingEmails hs \<and> pendingEmails hs1 = [] \<and> batchTimer hs1 = None
      \<and> pendingEmails (onNewEmail event hs1) = arrived [Arrival event]
      \<and> batchTimer (onNewEmail event hs1) \<noteq> None
      \<and> fst (flushBatch_sync (onNewEmail event hs1)) = arrived [Arrival event]
      \<and> flushBatch_async env batch (onNewEmail event hs1) =
          (fst (flushBatch_async env batch hs1), onNewEmail event (snd (flushBatch_async env batch hs1)))
      \<and> pendingEmails (snd (flushBatch_async env batch (onNewEmail event hs1))) = arrived [Arrival event])
   \<and> flushBatch_async env [] hs = ([], hs)
   \<and> (pendingEmails hs = [] \<longrightarrow> fst (flushBatch env hs) = [])
   \<and> (pendingEmails hs = [] \<longrightarrow>
        concat (flushed (runEngine evs (newEngine hs)))
          @ concat (inFlight (runEngine evs (newEngine hs)))
          @ pendingEmails (service (runEngine evs (newEngine hs))) = arrived evs)"
proof -
  let ?hs1 = "hs\<lparr>batchTimer := None, pendingEmails := []\<rparr>"
  have s: "flushBatch_sync hs = (pendingEmails hs, ?hs1)" by (simp add: flushBatch_sync_def)
  have p1: "pendingEmails (onNewEmail event ?hs1) = arrived [Arrival event]" by simp
  have p2: "fst (flushBatch_sync (onNewEmail event ?hs1)) = arrived [Arrival event]"
    by (simp add: flushBatch_sync_def)
  have p3: "pendingEmails (snd (flushBatch_async env (pendingEmails hs) (onNewEmail event ?hs1)))
              = arrived [Arrival event]"
    using flushBatch_async_pending[of env "pendingEmails hs" "onNewEmail event ?hs1"] by simp
  have e0: "flushBatch_async env [] hs = ([], hs)" by (simp add: flushBatch_async_def)
  have e1: "fst (flushBatch env hs) = []" if "pendingEmails hs = []"
    using that by (simp add: flushBatch_def flushBatch_sync_def flushBatch_async_def)
  have tr: "concat (flushed (runEngine evs (newEngine hs)))
          @ concat (inFlight (runEngine evs (newEngine hs)))
          @ pendingEmails (service (runEngine evs (newEngine hs))) = arrived evs"
    if "pendingEmails hs = []"
    using runEngine_heldBy[of evs "newEngine hs"] that by (simp add: heldBy_def newEngine_def)
  show ?thesis
    unfolding s using p1 p2 p3 e0 e1 tr flushBatch_async_arrival[of env "pendingEmails hs" event ?hs1]
    by simp
qed

theorem flushBatch_clears_before_async_witness:
  "concat (flushed (runEngine exampleHistory (newEngine exampleHooks)))
     @ concat (inFlight (runEngine exampleHistory (newEngine exampleHooks)))
     @ pendingEmails (service (runEngine exampleHistory (newEngine exampleHooks)))
     = [exampleBatchEmail (js ''1''), exampleBatchEmail (js ''2''), exampleBatchEmail (js ''3'')]
   \<and> flushed (runEngine exampleHistory (newEngine exampleHooks))
     = [[exampleBatchEmail (js ''1''), exampleBatchEmail (js ''2'')], [exampleBatchEmail (js ''3'')]]"
proof -
  have h: "pendingEmails exampleHooks = []" by (simp add: exampleHooks_def)
  have a: "arrived exampleHistory
     = [exampleBatchEmail (js ''1''), exampleBatchEmail (js ''2''), exampleBatchEmail (js ''3'')]"
    by (simp add: exampleHistory_def exampleEvent_def exampleBatchEmail_def)
  have f: "flushed (runEngine exampleHistory (newEngine exampleHooks))
     = [[exampleBatchEmail (js ''1''), exampleBatchEmail (js ''2'')], [exampleBatchEmail (js ''3'')]]"
    by (simp add: runEngine_def exampleHistory_def newEngine_def exampleHooks_def onNewEmail_def
        flushBatch_sync_def flushBatch_async_def triageBatch_def MAX_SAMPLING_PER_MIN_def
        exampleEvent_def exampleBatchEmail_def Let_def)
  show ?thesis
    using flushBatch_clears_before_async[of exampleHooks "exampleEvent []" exampleFlushEnv exampleHistory] h a f
    by simp
qed

text \<open>
  Claim C10. After \<open>stop\<close> the bus has no listener for \<open>email:new\<close>, whoever registered it:
  when another component has registered \<open>l\<close> and the service has registered its own listener
  in \<open>start\<close>, \<open>stop\<close> removes both, and an \<open>email:new\<close> event emitted afterwards reaches
  nobody. The listeners for \<open>email:expunge\<close> stay.
\<close>

theorem stop_removes_all_listeners:
  "listeners (snd (stop (p, bus))) email_new = []
   \<and> listeners (snd (stop (p, bus))) email_expunge = listeners bus email_expunge
   \<and> (onNewEmail_cfg (hooksConfig (hooksService p)) \<noteq> none \<longrightarrow>
        listeners (snd (fst (start srv cap (p, on email_new l bus)))) email_new
          = listeners bus email_new @ [l, hooksListener])
   \<and> listeners (snd (stop (fst (start srv cap (p, on email_new l bus))))) email_new = []
   \<and> emit (snd (stop (fst (start srv cap (p, on email_new l bus))))) email_new ev q = Returns q"
  by (simp add: stop_def start_def removeAllListeners_def on_def emit_def Let_def split: prod.splits)

theorem stop_removes_all_listeners_witness:
  "emit (snd (fst (start (Server 1) (Some True) (exampleProcess, on email_new foreignListener newEventBus))))
      email_new (NewEmail (exampleEvent [js ''1''])) exampleProcess
     = Returns (exampleProcess\<lparr>hooksService := onNewEmail (exampleEvent [js ''1'']) exampleHooks,
                               others := [1]\<rparr>)
   \<and> emit (snd (stop (fst (start (Server 1) (Some True)
                              (exampleProcess, on email_new foreignListener newEventBus)))))
      email_new (NewEmail (exampleEvent [js ''1''])) exampleProcess
     = Returns exampleProcess"
proof -
  have m: "onNewEmail_cfg (hooksConfig (hooksService exampleProcess)) \<noteq> none"
    by (simp add: exampleProcess_def exampleHooks_def)
  note t = stop_removes_all_listeners[where p = exampleProcess and bus = newEventBus
      and l = foreignListener and srv = "Server 1" and cap = "Some True"
      and ev = "NewEmail (exampleEvent [js ''1''])" and q = exampleProcess]
  note before = t[THEN conjunct2, THEN conjunct2, THEN conjunct1, THEN mp, OF m]
  note after = t[THEN conjunct2, THEN conjunct2, THEN conjunct2, THEN conjunct2]
  have a: "emit (snd (fst (start (Server 1) (Some True) (exampleProcess, on email_new foreignListener newEventBus))))
      email_new (NewEmail (exampleEvent [js ''1''])) exampleProcess
     = Returns (exampleProcess\<lparr>hooksService := onNewEmail (exampleEvent [js ''1'']) exampleHooks,
                               others := [1]\<rparr>)"
    unfolding emit_def before
    by (simp add: newEventBus_def exampleProcess_def hooksListener_def foreignListener_def)
  show ?thesis using a after by simp
qed

section \<open>Properties of the event bus\<close>

lemma deliver_append:
  "deliver (xs @ ys) ev s =
     (case deliver xs ev s of Returns s' \<Rightarrow> deliver ys ev s' | Throws e s' \<Rightarrow> Throws e s')"
  by (induction xs arbitrary: s) (simp_all split: completion.splits)

lemma deliver_all_return:
  "deliver (map (\<lambda>f ev s. Returns (f ev s)) fs) ev s = Returns (fold (\<lambda>f. f ev) fs s)"
  by (induction fs arbitrary: s) simp_all

text \<open>
  Claim C2, as stated, fails: with three subscribers of which the second throws, the third
  does not receive the event, and the exception leaves \<open>emit\<close>.
\<close>

theorem emit_throwing_subscriber:
  "emit exampleBus email_new (NewEmail (exampleEvent [js ''1''])) [] = Throws (js ''boom'') [1]"
  by (simp add: exampleBus_def emit_def on_def newEventBus_def thrower_def recorder_def)

text \<open>
  Claim C2, amended. \<open>on\<close> registers after the subscribers already there; \<open>emit\<close> calls the
  subscribers registered for the event synchronously in that order; when none throws, each
  receives the event once; the first subscriber that throws ends the emit, the later ones
  are not called and the exception leaves \<open>emit\<close>. In \<open>handleNewEmails\<close> that exception is
  caught by the \<open>try\<close> around the fetch and logged as a warning.
\<close>

theorem emit_delivery:
  "listeners (on n l bus) n = listeners bus n @ [l]
   \<and> (listeners bus n = map (\<lambda>f ev s. Returns (f ev s)) fs
        \<longrightarrow> emit bus n ev s = Returns (fold (\<lambda>f. f ev) fs s))
   \<and> (listeners bus n = ls1 @ l # ls2 \<and> deliver ls1 ev s = Returns s1 \<and> l ev s1 = Throws e s2
        \<longrightarrow> emit bus n ev s = Throws e s2)
   \<and> (idleStates ws key = Some st \<and> client st = Some c
        \<and> fetchLoop (lastSeenUid st) now msgs ([], lastSeenUid st) = Inr (ems, m) \<and> ems \<noteq> []
        \<and> emit bus' email_new
             (NewEmail \<lparr>ev_account = name (account st), ev_mailbox = folder st, emails = ems\<rparr>) p
           = Throws e p'
        \<longrightarrow> snd (handleNewEmails bus' key now (FetchDone msgs) (ws, p)) = p'
          \<and> log (fst (handleNewEmails bus' key now (FetchDone msgs) (ws, p)))
              = log ws @ [(LogWarning, watcher, FetchNewFailed e)])"
proof -
  have a: "listeners (on n l bus) n = listeners bus n @ [l]" by (simp add: on_def)
  have b: "emit bus n ev s = Returns (fold (\<lambda>f. f ev) fs s)"
    if "listeners bus n = map (\<lambda>f ev s. Returns (f ev s)) fs"
    using that by (simp add: emit_def deliver_all_return)
  have c: "emit bus n ev s = Throws e s2"
    if "listeners bus n = ls1 @ l # ls2" "deliver ls1 ev s = Returns s1" "l ev s1 = Throws e s2"
    using that by (simp add: emit_def deliver_append)
  have d: "snd (handleNewEmails bus' key now (FetchDone msgs) (ws, p)) = p'
          \<and> log (fst (handleNewEmails bus' key now (FetchDone msgs) (ws, p)))
              = log ws @ [(LogWarning, watcher, FetchNewFailed e)]"
    if "idleStates ws key = Some st" "client st = Some c"
      "fetchLoop (lastSeenUid st) now msgs ([], lastSeenUid st) = Inr (ems, m)" "ems \<noteq> []"
      "emit bus' email_new
             (NewEmail \<lparr>ev_account = name (account st), ev_mailbox = folder st, emails = ems\<rparr>) p
           = Throws e p'"
    using that
    by (simp add: handleNewEmails_def afterLoop_def Let_def watcherLog_def mcpLog_def updateState_def)
  show ?thesis using a b c d by blast
qed

theorem emit_delivery_witness:
  "emit (on email_new (recorder 2) (on email_new (recorder 1) newEventBus)) email_new exampleExpunge []
     = Returns [1, 2]
   \<and> emit exampleBus email_new exampleExpunge [] = Throws (js ''boom'') [1]"
proof -
  have r: "recorder k = (\<lambda>ev s. Returns ((\<lambda>ev s. s @ [k]) ev s))" for k
    by (intro ext) (simp add: recorder_def)
  have l2: "listeners (on email_new (recorder 2) (on email_new (recorder 1) newEventBus)) email_new
      = map (\<lambda>f ev s. Returns (f ev s)) [\<lambda>ev s. s @ [1], \<lambda>ev s. s @ [2]]"
    by (simp add: on_def newEventBus_def r)
  have l3: "listeners exampleBus email_new = [recorder 1] @ thrower # [recorder 3]"
    by (simp add: exampleBus_def on_def newEventBus_def)
  have h1: "deliver [recorder 1] exampleExpunge [] = Returns [1]" by (simp add: recorder_def)
  have h2: "thrower exampleExpunge [1] = Throws (js ''boom'') [1]" by (simp add: thrower_def)
  note t1 = emit_delivery[where n = email_new
      and bus = "on email_new (recorder 2) (on email_new (recorder 1) newEventBus)"
      and ev = exampleExpunge and s = "[]" and fs = "[\<lambda>ev s. s @ [1], \<lambda>ev s. s @ [2]]",
      THEN conjunct2, THEN conjunct1, THEN mp, OF l2]
  note t2 = emit_delivery[where n = email_new and bus = exampleBus and l = thrower
      and ev = exampleExpunge and s = "[]" and ?ls1.0 = "[recorder 1]" and ?s1.0 = "[1]"
      and e = "js ''boom''" and ?s2.0 = "[1]" and ?ls2.0 = "[recorder 3]",
      THEN conjunct2, THEN conjunct2, THEN conjunct1, THEN mp, OF conjI[OF l3 conjI[OF h1 h2]]]
  show ?thesis using t1 t2 by simp
qed

end
